theory Spec2Isabelle
  imports Main
begin

section \<open>Python values and exceptions\<close>

text \<open>
  The router is dynamically typed: \<open>add_route\<close> tests its arguments with
  \<open>isinstance\<close> and \<open>callable\<close>, and \<open>Route.__init__\<close> iterates \<open>methods\<close>
  whatever it is. The arguments are therefore values of a small universe of Python
  objects: \<open>None\<close>, booleans, integers, strings, lists, tuples, functions (told apart
  by a number) and references to \<open>Route\<close> objects. A reference is the object's
  identity: \<open>Route\<close> defines no \<open>__eq__\<close>, so two routes are equal only when they
  are the same object.
\<close>

type_synonym ref = nat

datatype pyval =
    PyNone
  | PyBool bool
  | PyInt int
  | PyStr string
  | PyList "pyval list"
  | PyTuple "pyval list"
  | PyFunction nat
  | PyRoute ref

text \<open>
  \<open>RouterError\<close> is the one exception the package defines; the others are the
  built-in exceptions its code can meet. Each carries its message.
\<close>

datatype error =
    RouterError string
  | TypeError string
  | AttributeError string
  | KeyError string

text \<open>A string between single quotes, as the f-strings and the built-in messages write it.\<close>

definition quoted :: "string \<Rightarrow> string" where
  "quoted s = CHR 0x27 # s @ [CHR 0x27]"

text \<open>\<open>type(v).__name__\<close>\<close>

fun type_name :: "pyval \<Rightarrow> string" where
  "type_name PyNone = ''NoneType''"
| "type_name (PyBool _) = ''bool''"
| "type_name (PyInt _) = ''int''"
| "type_name (PyStr _) = ''str''"
| "type_name (PyList _) = ''list''"
| "type_name (PyTuple _) = ''tuple''"
| "type_name (PyFunction _) = ''function''"
| "type_name (PyRoute _) = ''Route''"

text \<open>
  \<open>type(v)\<close> as an f-string formats it: \<open><class 'int'>\<close>; a class that is not a
  built-in is printed with its module.
\<close>

fun type_repr :: "pyval \<Rightarrow> string" where
  "type_repr (PyRoute _) = ''<class '' @ quoted ''fusi.route.Route'' @ ''>''"
| "type_repr v = ''<class '' @ quoted (type_name v) @ ''>''"

text \<open>\<open>isinstance(v, str)\<close>, with the string when it holds.\<close>

fun as_str :: "pyval \<Rightarrow> string option" where
  "as_str (PyStr s) = Some s"
| "as_str _ = None"

text \<open>\<open>callable(v)\<close>: of the values above only functions can be called.\<close>

fun callable :: "pyval \<Rightarrow> bool" where
  "callable (PyFunction _) = True"
| "callable _ = False"

text \<open>
  The truth value of an \<open>Optional[str]\<close>, as \<open>if prefix\<close>, \<open>if self.name\<close> and
  \<open>if fallback\<close> test it: \<open>None\<close> and the empty string are false.
\<close>

definition truthy :: "string option \<Rightarrow> bool" where
  "truthy v = (case v of None \<Rightarrow> False | Some s \<Rightarrow> s \<noteq> [])"

text \<open>\<open>s.startswith(t)\<close>\<close>

definition startswith :: "string \<Rightarrow> string \<Rightarrow> bool" where
  "startswith s t = (take (length t) s = t)"

text \<open>
  \<open>str.upper\<close>. The strings of this universe are ASCII strings: a character stands for
  a code point from 0 to 127, and on those \<open>str.upper\<close> maps the letters \<open>a\<close> to \<open>z\<close> to
  \<open>A\<close> to \<open>Z\<close> and keeps every other one. A character above 127 stands for no Python
  character; that \<open>upper\<close> keeps it says nothing about Python.
\<close>

definition upper_char :: "char \<Rightarrow> char" where
  "upper_char c =
     (case map_of (zip ''abcdefghijklmnopqrstuvwxyz'' ''ABCDEFGHIJKLMNOPQRSTUVWXYZ'') c of
        None \<Rightarrow> c
      | Some u \<Rightarrow> u)"

definition upper :: "string \<Rightarrow> string" where
  "upper s = map upper_char s"


section \<open>route.py\<close>

text \<open>
  \<open>Route\<close> has four slots. \<open>_methods\<close> is \<open>tuple(set(...))\<close>: a tuple without
  duplicates whose order Python does not fix, so it is kept as the set.
\<close>

record route =
  route_name :: string
  route_pattern :: string
  route_handler :: pyval
  route_methods :: "string set"

text \<open>
  \<open>iter(v)\<close>, which the generator expression \<open>(i.upper() for i in methods)\<close> calls
  first: a list or tuple yields its items, a string its characters (each a string of
  length one), anything else is not iterable.
\<close>

fun py_iter :: "pyval \<Rightarrow> error + pyval list" where
  "py_iter (PyList xs) = Inr xs"
| "py_iter (PyTuple xs) = Inr xs"
| "py_iter (PyStr s) = Inr (map (\<lambda>c. PyStr [c]) s)"
| "py_iter v = Inl (TypeError (quoted (type_name v) @ '' object is not iterable''))"

text \<open>\<open>i.upper()\<close>: only \<open>str\<close> has the attribute.\<close>

fun call_upper :: "pyval \<Rightarrow> error + string" where
  "call_upper (PyStr s) = Inr (upper s)"
| "call_upper v =
     Inl (AttributeError (quoted (type_name v) @ '' object has no attribute '' @ quoted ''upper''))"

text \<open>The generator as \<open>set()\<close> consumes it: it stops at the first item that raises.\<close>

fun upper_all :: "pyval list \<Rightarrow> error + string list" where
  "upper_all [] = Inr []"
| "upper_all (i # rest) =
     (case call_upper i of
        Inl e \<Rightarrow> Inl e
      | Inr u \<Rightarrow> (case upper_all rest of Inl e \<Rightarrow> Inl e | Inr us \<Rightarrow> Inr (u # us)))"

text \<open>
  \<open>Route(name, pattern, handler, methods)\<close>. Objects live in a heap, a list indexed by
  reference; a new object takes the next free reference. When \<open>__init__\<close> raises, no
  object comes into being.
\<close>

definition Route_init ::
  "route list \<Rightarrow> string \<Rightarrow> string \<Rightarrow> pyval \<Rightarrow> pyval \<Rightarrow> error + (ref \<times> route list)" where
  "Route_init h name pattern handler methods =
     (case py_iter methods of
        Inl e \<Rightarrow> Inl e
      | Inr items \<Rightarrow>
          (case upper_all items of
             Inl e \<Rightarrow> Inl e
           | Inr us \<Rightarrow>
               Inr (length h,
                    h @ [\<lparr>route_name = name, route_pattern = pattern,
                          route_handler = handler, route_methods = set us\<rparr>])))"


section \<open>router.py\<close>

subsection \<open>The dictionary of routes\<close>

text \<open>
  \<open>_routes\<close> is a \<open>dict\<close> from names to routes. A \<open>dict\<close> keeps insertion order, which
  \<open>routes\<close> and \<open>items\<close> expose, so it is an association list: a new key goes to the
  end, an existing key keeps its place.
\<close>

definition dict_contains :: "(string \<times> 'v) list \<Rightarrow> string \<Rightarrow> bool" where
  "dict_contains d k = (map_of d k \<noteq> None)"

definition dict_getitem :: "(string \<times> 'v) list \<Rightarrow> string \<Rightarrow> error + 'v" where
  "dict_getitem d k = (case map_of d k of None \<Rightarrow> Inl (KeyError (quoted k)) | Some v \<Rightarrow> Inr v)"

fun dict_setitem :: "(string \<times> 'v) list \<Rightarrow> string \<Rightarrow> 'v \<Rightarrow> (string \<times> 'v) list" where
  "dict_setitem [] k v = [(k, v)]"
| "dict_setitem ((k', v') # d) k v =
     (if k' = k then (k, v) # d else (k', v') # dict_setitem d k v)"

subsection \<open>Router\<close>

record router =
  router_name :: "string option"
  router_prefix :: "string option"
  router_routes :: "(string \<times> ref) list"

text \<open>\<open>Router(name, prefix)\<close>\<close>

definition Router_init :: "string option \<Rightarrow> string option \<Rightarrow> error + router" where
  "Router_init name prefix =
     (if truthy prefix \<and> \<not> startswith (the prefix) ''/'' then
        Inl (RouterError (''Parameter '' @ quoted ''prefix''
               @ '' must start with a leading slash '' @ quoted ''/''
               @ '' not '' @ quoted (the prefix)))
      else Inr \<lparr>router_name = name, router_prefix = prefix, router_routes = []\<rparr>)"

text \<open>\<open>__len__\<close>, the \<open>routes\<close> property and \<open>items\<close>\<close>

definition Router_len :: "router \<Rightarrow> nat" where
  "Router_len rt = length (router_routes rt)"

definition routes :: "router \<Rightarrow> ref list" where
  "routes rt = map snd (router_routes rt)"

definition items :: "router \<Rightarrow> (string \<times> ref) list" where
  "items rt = router_routes rt"

text \<open>
  \<open>__contains__\<close> is \<open>item in self.routes\<close>, membership in a list: some element is the
  item or equals it. A \<open>Route\<close> equals nothing but itself, whatever the item is.
\<close>

fun is_or_eq :: "pyval \<Rightarrow> ref \<Rightarrow> bool" where
  "is_or_eq (PyRoute a) r = (a = r)"
| "is_or_eq _ r = False"

definition Router_contains :: "router \<Rightarrow> pyval \<Rightarrow> bool" where
  "Router_contains rt item = list_ex (is_or_eq item) (routes rt)"

text \<open>
  \<open>match_name\<close>: the \<open>try\<close> catches \<open>KeyError\<close> only; the retry passes no fallback.
\<close>

function match_name :: "router \<Rightarrow> string \<Rightarrow> string option \<Rightarrow> error + ref option" where
  "match_name rt name fallback =
     (case dict_getitem (router_routes rt) name of
        Inr r \<Rightarrow> Inr (Some r)
      | Inl (KeyError _) \<Rightarrow>
          (if truthy fallback then match_name rt (the fallback) None else Inr None)
      | Inl e \<Rightarrow> Inl e)"
  by pat_completeness auto
termination
  by (relation "measure (\<lambda>(rt, name, fallback). if truthy fallback then 1 else 0)")
     (auto simp: truthy_def)

declare match_name.simps [simp del]

definition is_pattern_match :: "string \<Rightarrow> route \<Rightarrow> bool" where
  "is_pattern_match pattern r = (pattern = route_pattern r)"

text \<open>
  \<open>self.is_pattern_match\<close> is a method a subclass may override, and a method can do
  more than answer: it can count, log or keep what it saw. The predicate the loop calls
  therefore takes a state and returns the state it leaves, so that every call of it
  shows. \<open>Router.is_pattern_match\<close> itself leaves the state alone.
\<close>

type_synonym 's predicate = "string \<Rightarrow> route \<Rightarrow> 's \<Rightarrow> bool \<times> 's"

definition is_pattern_match_method :: "'s predicate" where
  "is_pattern_match_method pattern r s = (is_pattern_match pattern r, s)"

text \<open>
  An override that keeps the routes it is given, in the order of the calls, and answers
  as \<open>q\<close> does:
  \<^verbatim>\<open>
  def is_pattern_match(self, pattern, route):
      self.seen.append(route)
      return q(pattern, route)
  \<close>
\<close>

definition recording :: "(string \<Rightarrow> route \<Rightarrow> bool) \<Rightarrow> route list predicate" where
  "recording q pattern r seen = (q pattern r, seen @ [r])"

text \<open>The \<open>for\<close> loop of \<open>match_pattern\<close>: it returns from inside the loop.\<close>

fun match_pattern_loop ::
  "'s predicate \<Rightarrow> route list \<Rightarrow> string \<Rightarrow> ref list \<Rightarrow> 's \<Rightarrow> ref option \<times> 's" where
  "match_pattern_loop pm h pattern [] s = (None, s)"
| "match_pattern_loop pm h pattern (r # rs) s =
     (case pm pattern (h ! r) s of
        (matched, s') \<Rightarrow>
          if matched then (Some r, s') else match_pattern_loop pm h pattern rs s')"

text \<open>The body of \<open>match_pattern\<close>, which Python keeps as \<open>match_pattern.__wrapped__\<close>.\<close>

definition match_pattern_wrapped ::
  "'s predicate \<Rightarrow> route list \<Rightarrow> router \<Rightarrow> string \<Rightarrow> string option \<Rightarrow> 's
     \<Rightarrow> (error + ref option) \<times> 's" where
  "match_pattern_wrapped pm h rt pattern fallback s =
     (case match_pattern_loop pm h pattern (routes rt) s of
        (Some r, s') \<Rightarrow> (Inr (Some r), s')
      | (None, s') \<Rightarrow>
          (if truthy fallback then match_name rt (the fallback) None else Inr None, s'))"

text \<open>
  \<open>functools.lru_cache\<close>: a call whose key is in the cache returns the stored result
  without running the function, and becomes the most recent entry; otherwise the
  function runs, and its result is stored unless it raised, the least recent entry
  leaving a full cache. The list has the most recent entry first.
\<close>

definition lru_cache_call ::
  "nat \<Rightarrow> ('k \<times> 'v) list \<Rightarrow> 'k \<Rightarrow> ('s \<Rightarrow> (error + 'v) \<times> 's) \<Rightarrow> 's
     \<Rightarrow> (error + 'v) \<times> ('k \<times> 'v) list \<times> 's" where
  "lru_cache_call maxsize c key f s =
     (case map_of c key of
        Some v \<Rightarrow> (Inr v, (key, v) # filter (\<lambda>e. fst e \<noteq> key) c, s)
      | None \<Rightarrow>
          (case f s of
             (Inl e, s') \<Rightarrow> (Inl e, c, s')
           | (Inr v, s') \<Rightarrow> (Inr v, take maxsize ((key, v) # c), s')))"

text \<open>
  The key \<open>lru_cache\<close> makes is the tuple of the arguments as they were passed:
  the positional ones, \<open>self\<close> first, then the keyword ones with their names, in the
  order of the call. Calls that pass the same values in another way have different
  keys. These are the ways to call \<open>match_pattern\<close> that bind its parameters:
  \<^item> \<open>Args1 p\<close> is \<open>match_pattern(p)\<close>;
  \<^item> \<open>Args2 p fb\<close> is \<open>match_pattern(p, fb)\<close>;
  \<^item> \<open>Args1_fallback p fb\<close> is \<open>match_pattern(p, fallback=fb)\<close>;
  \<^item> \<open>Kw_pattern p\<close> is \<open>match_pattern(pattern=p)\<close>;
  \<^item> \<open>Kw_pattern_fallback p fb\<close> is \<open>match_pattern(pattern=p, fallback=fb)\<close>;
  \<^item> \<open>Kw_fallback_pattern fb p\<close> is \<open>match_pattern(fallback=fb, pattern=p)\<close>.
\<close>

datatype call =
    Args1 string
  | Args2 string "string option"
  | Args1_fallback string "string option"
  | Kw_pattern string
  | Kw_pattern_fallback string "string option"
  | Kw_fallback_pattern "string option" string

text \<open>The parameters a call binds; \<open>fallback\<close> defaults to \<open>None\<close>.\<close>

fun call_pattern :: "call \<Rightarrow> string" where
  "call_pattern (Args1 p) = p"
| "call_pattern (Args2 p fb) = p"
| "call_pattern (Args1_fallback p fb) = p"
| "call_pattern (Kw_pattern p) = p"
| "call_pattern (Kw_pattern_fallback p fb) = p"
| "call_pattern (Kw_fallback_pattern fb p) = p"

fun call_fallback :: "call \<Rightarrow> string option" where
  "call_fallback (Args1 p) = None"
| "call_fallback (Args2 p fb) = fb"
| "call_fallback (Args1_fallback p fb) = fb"
| "call_fallback (Kw_pattern p) = None"
| "call_fallback (Kw_pattern_fallback p fb) = fb"
| "call_fallback (Kw_fallback_pattern fb p) = fb"

text \<open>
  The cache belongs to the function, so all \<open>Router\<close> instances share it and its 128
  places. \<open>Router\<close> defines no \<open>__eq__\<close>: in a key, \<open>self\<close> is the instance itself, this
  router or another one.
\<close>

datatype receiver = Self | Other nat

text \<open>
  The state a call can read or change: the heap of \<open>Route\<close> objects, this \<open>Router\<close>
  instance, and the cache that \<open>@lru_cache\<close> attaches to \<open>match_pattern\<close>.
\<close>

record world =
  heap :: "route list"
  self :: router
  cache :: "((receiver \<times> call) \<times> ref option) list"

text \<open>
  \<open>match_pattern\<close> as decorated, called on this router with its arguments as passed;
  \<open>pm\<close> is the \<open>is_pattern_match\<close> of the router's class.
\<close>

definition call_match_pattern ::
  "'s predicate \<Rightarrow> world \<Rightarrow> call \<Rightarrow> 's \<Rightarrow> (error + ref option) \<times> world \<times> 's" where
  "call_match_pattern pm w c s =
     (case lru_cache_call 128 (cache w) (Self, c)
             (match_pattern_wrapped pm (heap w) (self w) (call_pattern c) (call_fallback c)) s of
        (res, c', s') \<Rightarrow> (res, w\<lparr>cache := c'\<rparr>, s'))"

text \<open>The call \<open>router.match_pattern(pattern, fallback)\<close> on a \<open>Router\<close>.\<close>

definition match_pattern ::
  "world \<Rightarrow> string \<Rightarrow> string option \<Rightarrow> (error + ref option) \<times> world" where
  "match_pattern w pattern fallback =
     (case call_match_pattern is_pattern_match_method w (Args2 pattern fallback) () of
        (res, w', u) \<Rightarrow> (res, w'))"

definition prepare_route_name :: "router \<Rightarrow> string \<Rightarrow> string" where
  "prepare_route_name rt name =
     (if truthy (router_name rt) then the (router_name rt) @ ''.'' @ name else name)"

definition check_route_name :: "router \<Rightarrow> string \<Rightarrow> error + bool" where
  "check_route_name rt name = Inr True"

definition prepare_route_pattern :: "router \<Rightarrow> string \<Rightarrow> string" where
  "prepare_route_pattern rt pattern =
     (if truthy (router_prefix rt) then the (router_prefix rt) @ pattern else pattern)"

definition check_route_pattern :: "router \<Rightarrow> string \<Rightarrow> error + bool" where
  "check_route_pattern rt pattern =
     (if \<not> startswith pattern ''/'' then
        Inl (RouterError (quoted ''pattern'' @ '' must start with a '' @ quoted ''/''))
      else Inr True)"

definition prepare_route_handler :: "router \<Rightarrow> pyval \<Rightarrow> pyval" where
  "prepare_route_handler rt handler = handler"

text \<open>
  \<open>add_route\<close> returns its result together with the state it leaves, also when it
  raises: an exception does not undo what was done before it.
\<close>

definition add_route ::
  "world \<Rightarrow> pyval \<Rightarrow> pyval \<Rightarrow> pyval \<Rightarrow> pyval \<Rightarrow> (error + ref) \<times> world" where
  "add_route w name pattern handler methods =
     (case as_str name of
        None \<Rightarrow>
          (Inl (RouterError (''parameter '' @ quoted ''name'' @ '' must be a string, not ''
                  @ quoted (type_repr pattern))), w)
      | Some n \<Rightarrow>
     (case as_str pattern of
        None \<Rightarrow>
          (Inl (RouterError (''parameter '' @ quoted ''pattern'' @ '' must be a string, not ''
                  @ quoted (type_repr pattern))), w)
      | Some p \<Rightarrow>
     if \<not> callable handler then
       (Inl (RouterError (''parameter '' @ quoted ''handler'' @ '' must be callable, not ''
               @ quoted (type_repr handler))), w)
     else
       let route_name = prepare_route_name (self w) n in
       if dict_contains (router_routes (self w)) route_name then
         (Inl (RouterError (''Route with name '' @ quoted n @ '' already exists'')), w)
       else
         let route_pattern = prepare_route_pattern (self w) p in
         (case check_route_name (self w) route_name of
            Inl e \<Rightarrow> (Inl e, w)
          | Inr _ \<Rightarrow>
         (case check_route_pattern (self w) route_pattern of
            Inl e \<Rightarrow> (Inl e, w)
          | Inr _ \<Rightarrow>
         let route_handler = prepare_route_handler (self w) handler in
         (case Route_init (heap w) route_name route_pattern route_handler methods of
            Inl e \<Rightarrow> (Inl e, w)
          | Inr (r, h) \<Rightarrow>
              (Inr r,
               w\<lparr>heap := h,
                 self := (self w)\<lparr>router_routes :=
                           dict_setitem (router_routes (self w)) route_name r\<rparr>\<rparr>))))))"

subsection \<open>Programs\<close>

text \<open>
  The states a program can reach: it constructs the router, then registers routes
  (with any arguments, the call succeeding or raising), looks patterns up (calling
  \<open>match_pattern\<close> in any way), and may construct \<open>Route\<close> objects of its own. A lookup
  on another router goes through the same cache: with a key of that router it returns
  or stores a result of that router. \<open>match_name\<close>, \<open>in\<close>, \<open>len\<close> and \<open>items\<close> change
  nothing.
\<close>

inductive reachable :: "world \<Rightarrow> bool" where
  construct:
    "Router_init name prefix = Inr rt \<Longrightarrow> reachable \<lparr>heap = [], self = rt, cache = []\<rparr>"
| register:
    "reachable w \<Longrightarrow> add_route w name pattern handler methods = (res, w') \<Longrightarrow> reachable w'"
| lookup:
    "reachable w \<Longrightarrow> call_match_pattern is_pattern_match_method w c () = (res, w', u)
       \<Longrightarrow> reachable w'"
| other_lookup:
    "reachable w \<Longrightarrow> lru_cache_call 128 (cache w) (Other n, c) (\<lambda>s. (res, s)) () = (out, c', u)
       \<Longrightarrow> reachable (w\<lparr>cache := c'\<rparr>)"
| new_route:
    "reachable w \<Longrightarrow> Route_init (heap w) name pattern handler methods = Inr (r, h)
       \<Longrightarrow> reachable (w\<lparr>heap := h\<rparr>)"

text \<open>The state right after \<open>Router(name, prefix)\<close> has returned a router.\<close>

definition new_world :: "string option \<Rightarrow> string option \<Rightarrow> world" where
  "new_world name prefix =
     \<lparr>heap = [],
      self = \<lparr>router_name = name, router_prefix = prefix, router_routes = []\<rparr>,
      cache = []\<rparr>"

subsection \<open>Invariants of the reachable states\<close>

text \<open>Every entry of \<open>_routes\<close> refers to a live object whose name is the entry's key.\<close>

definition routes_ok :: "world \<Rightarrow> bool" where
  "routes_ok w =
     (\<forall>(k, r) \<in> set (router_routes (self w)).
        r < length (heap w) \<and> route_name (heap w ! r) = k)"

text \<open>
  Every route the cache holds for this router is owned by the router, and was found
  either by its pattern or as the route named by the fallback.
\<close>

definition cache_ok :: "world \<Rightarrow> bool" where
  "cache_ok w =
     (\<forall>((i, c), res) \<in> set (cache w). \<forall>r. i = Self \<and> res = Some r \<longrightarrow>
        r \<in> set (routes (self w)) \<and>
        (is_pattern_match (call_pattern c) (heap w ! r) \<or>
         truthy (call_fallback c) \<and>
         map_of (router_routes (self w)) (the (call_fallback c)) = Some r))"

text \<open>A prefix that counts as one starts with a slash: the constructor saw to it.\<close>

definition prefix_ok :: "world \<Rightarrow> bool" where
  "prefix_ok w =
     (truthy (router_prefix (self w)) \<longrightarrow> startswith (the (router_prefix (self w))) ''/'')"

definition invariant :: "world \<Rightarrow> bool" where
  "invariant w =
     (distinct (map fst (router_routes (self w))) \<and> routes_ok w \<and> cache_ok w \<and> prefix_ok w)"


section \<open>Properties\<close>

subsection \<open>Values, dictionaries and lookups\<close>

lemma as_str_Some: "as_str v = Some s \<longleftrightarrow> v = PyStr s"
  by (cases v) auto

lemma as_str_None_type: "as_str v = None \<Longrightarrow> type_repr v \<noteq> ''<class '' @ quoted ''str'' @ ''>''"
  by (cases v) (auto simp: quoted_def)

lemma map_of_dict_setitem: "map_of (dict_setitem d k v) = (map_of d)(k \<mapsto> v)"
  by (induction d k v rule: dict_setitem.induct) auto

lemma dict_setitem_new: "map_of d k = None \<Longrightarrow> dict_setitem d k v = d @ [(k, v)]"
  by (induction d k v rule: dict_setitem.induct) (auto split: if_splits)

lemma match_name_None: "match_name rt name None = Inr (map_of (router_routes rt) name)"
  by (simp add: match_name.simps [of rt name None] dict_getitem_def truthy_def
        split: option.splits)

lemma match_name_eq:
  "match_name rt name fallback =
     Inr (case map_of (router_routes rt) name of
            Some r \<Rightarrow> Some r
          | None \<Rightarrow> (if truthy fallback then map_of (router_routes rt) (the fallback) else None))"
  by (simp add: match_name.simps [of rt name fallback] match_name_None dict_getitem_def
        split: option.splits)

lemma add_route_Inl: "add_route w name pattern handler methods = (Inl e, w') \<Longrightarrow> w' = w"
  by (auto simp: add_route_def Let_def split: option.splits if_splits sum.splits prod.splits)

lemma add_route_Inr:
  assumes "add_route w name pattern handler methods = (Inr r, w')"
  shows "\<exists>n p xs us. name = PyStr n \<and> pattern = PyStr p \<and> callable handler
           \<and> map_of (router_routes (self w)) (prepare_route_name (self w) n) = None
           \<and> startswith (prepare_route_pattern (self w) p) ''/''
           \<and> py_iter methods = Inr xs \<and> upper_all xs = Inr us
           \<and> r = length (heap w)
           \<and> w' = w\<lparr>heap := heap w @ [\<lparr>route_name = prepare_route_name (self w) n,
                                        route_pattern = prepare_route_pattern (self w) p,
                                        route_handler = handler, route_methods = set us\<rparr>],
                    self := (self w)\<lparr>router_routes :=
                       router_routes (self w) @ [(prepare_route_name (self w) n, r)]\<rparr>\<rparr>"
  using assms
  by (auto simp: add_route_def Let_def as_str_Some dict_contains_def check_route_name_def
        check_route_pattern_def prepare_route_handler_def Route_init_def dict_setitem_new
      split: option.splits if_splits sum.splits prod.splits)

lemma add_route_ok:
  assumes "callable handler"
    and "map_of (router_routes (self w)) (prepare_route_name (self w) n) = None"
    and "startswith (prepare_route_pattern (self w) p) ''/''"
    and "py_iter methods = Inr xs" and "upper_all xs = Inr us"
  shows "add_route w (PyStr n) (PyStr p) handler methods =
     (Inr (length (heap w)),
      w\<lparr>heap := heap w @ [\<lparr>route_name = prepare_route_name (self w) n,
                            route_pattern = prepare_route_pattern (self w) p,
                            route_handler = handler, route_methods = set us\<rparr>],
        self := (self w)\<lparr>router_routes :=
                  router_routes (self w) @ [(prepare_route_name (self w) n, length (heap w))]\<rparr>\<rparr>)"
  using assms
  by (simp add: add_route_def Let_def dict_contains_def check_route_name_def
        check_route_pattern_def prepare_route_handler_def Route_init_def dict_setitem_new)

subsection \<open>The pattern loop and the cache\<close>

lemma loop_method_state:
  "snd (match_pattern_loop is_pattern_match_method h pattern rs s) = s"
  by (induction rs) (simp_all add: is_pattern_match_method_def)

lemma loop_method_Some:
  "match_pattern_loop is_pattern_match_method h pattern rs s = (Some r, s') \<Longrightarrow>
     r \<in> set rs \<and> is_pattern_match pattern (h ! r)"
  by (induction rs) (auto simp: is_pattern_match_method_def split: if_splits)

lemma loop_method_None:
  "(\<forall>r \<in> set rs. \<not> is_pattern_match pattern (h ! r)) \<Longrightarrow>
     match_pattern_loop is_pattern_match_method h pattern rs s = (None, s)"
  by (induction rs) (simp_all add: is_pattern_match_method_def)

lemma loop_method_first:
  "(\<forall>x \<in> set xs. \<not> is_pattern_match pattern (h ! x)) \<Longrightarrow> is_pattern_match pattern (h ! r)
     \<Longrightarrow> match_pattern_loop is_pattern_match_method h pattern (xs @ r # ys) s = (Some r, s)"
  by (induction xs) (simp_all add: is_pattern_match_method_def)

lemma loop_recording_first:
  "(\<forall>x \<in> set xs. \<not> q pattern (h ! x)) \<Longrightarrow> q pattern (h ! r)
     \<Longrightarrow> match_pattern_loop (recording q) h pattern (xs @ r # ys) seen =
         (Some r, seen @ map ((!) h) (xs @ [r]))"
  by (induction xs arbitrary: seen) (simp_all add: recording_def)

lemma loop_recording_None:
  "(\<forall>x \<in> set rs. \<not> q pattern (h ! x))
     \<Longrightarrow> match_pattern_loop (recording q) h pattern rs seen = (None, seen @ map ((!) h) rs)"
  by (induction rs arbitrary: seen) (simp_all add: recording_def)

lemma loop_recording_result:
  "fst (match_pattern_loop (recording is_pattern_match) h pattern rs seen) =
     fst (match_pattern_loop is_pattern_match_method h pattern rs s)"
  by (induction rs arbitrary: seen) (simp_all add: recording_def is_pattern_match_method_def)

lemma map_of_Some_routes: "map_of (router_routes rt) k = Some r \<Longrightarrow> r \<in> set (routes rt)"
  unfolding routes_def by (force dest: map_of_SomeD)

lemma wrapped_method_state:
  "snd (match_pattern_wrapped is_pattern_match_method h rt pattern fallback s) = s"
  using loop_method_state [of h pattern "routes rt" s]
  by (auto simp: match_pattern_wrapped_def split: prod.splits option.splits)

lemma wrapped_method_Some:
  assumes "fst (match_pattern_wrapped is_pattern_match_method h rt pattern fallback s) = Inr (Some r)"
  shows "r \<in> set (routes rt) \<and>
         (is_pattern_match pattern (h ! r) \<or>
          truthy fallback \<and> map_of (router_routes rt) (the fallback) = Some r)"
proof (cases "match_pattern_loop is_pattern_match_method h pattern (routes rt) s")
  case (Pair found s')
  show ?thesis
  proof (cases found)
    case None
    with Pair assms have "truthy fallback" "map_of (router_routes rt) (the fallback) = Some r"
      by (auto simp: match_pattern_wrapped_def match_name_None split: if_splits)
    then show ?thesis by (simp add: map_of_Some_routes)
  next
    case (Some a)
    with Pair assms have "a = r" by (simp add: match_pattern_wrapped_def)
    with Pair Some show ?thesis by (auto dest: loop_method_Some)
  qed
qed

lemma wrapped_Inr: "\<exists>found. fst (match_pattern_wrapped pm h rt pattern fallback s) = Inr found"
  by (simp add: match_pattern_wrapped_def match_name_None split: prod.splits option.splits)

lemma wrapped_method_first:
  assumes "routes rt = xs @ r # ys"
    and "list_all (\<lambda>x. \<not> is_pattern_match pattern (h ! x)) xs"
    and "is_pattern_match pattern (h ! r)"
  shows "match_pattern_wrapped is_pattern_match_method h rt pattern fallback s = (Inr (Some r), s)"
  using assms by (simp add: match_pattern_wrapped_def loop_method_first list_all_iff)

lemma wrapped_method_none:
  assumes "list_all (\<lambda>x. \<not> is_pattern_match pattern (h ! x)) (routes rt)"
  shows "match_pattern_wrapped is_pattern_match_method h rt pattern fallback s =
     (if truthy fallback then match_name rt (the fallback) None else Inr None, s)"
  using assms by (simp add: match_pattern_wrapped_def loop_method_None list_all_iff)

lemma wrapped_recording_first:
  assumes "routes rt = xs @ r # ys"
    and "list_all (\<lambda>x. \<not> q pattern (h ! x)) xs"
    and "q pattern (h ! r)"
  shows "match_pattern_wrapped (recording q) h rt pattern fallback seen =
     (Inr (Some r), seen @ map ((!) h) (xs @ [r]))"
  using assms by (simp add: match_pattern_wrapped_def loop_recording_first list_all_iff)

lemma wrapped_recording_none:
  assumes "list_all (\<lambda>x. \<not> q pattern (h ! x)) (routes rt)"
  shows "match_pattern_wrapped (recording q) h rt pattern fallback seen =
     (if truthy fallback then match_name rt (the fallback) None else Inr None,
      seen @ map ((!) h) (routes rt))"
  using assms by (simp add: match_pattern_wrapped_def loop_recording_None list_all_iff)

lemma wrapped_recording_result:
  "fst (match_pattern_wrapped (recording is_pattern_match) h rt pattern fallback seen) =
     fst (match_pattern_wrapped is_pattern_match_method h rt pattern fallback s)"
  using loop_recording_result [of h pattern "routes rt" seen s]
  by (auto simp: match_pattern_wrapped_def split: prod.splits option.splits)

lemma call_hit:
  "map_of (cache w) (Self, c) = Some v \<Longrightarrow>
     call_match_pattern pm w c s =
       (Inr v, w\<lparr>cache := ((Self, c), v) # filter (\<lambda>e. fst e \<noteq> (Self, c)) (cache w)\<rparr>, s)"
  by (simp add: call_match_pattern_def lru_cache_call_def)

lemma call_miss:
  "map_of (cache w) (Self, c) = None \<Longrightarrow>
     match_pattern_wrapped pm (heap w) (self w) (call_pattern c) (call_fallback c) s = (Inr v, s')
     \<Longrightarrow> call_match_pattern pm w c s =
           (Inr v, w\<lparr>cache := take 128 (((Self, c), v) # cache w)\<rparr>, s')"
  by (simp add: call_match_pattern_def lru_cache_call_def)

lemma call_recording_result:
  "fst (call_match_pattern (recording is_pattern_match) w c seen) =
     fst (call_match_pattern is_pattern_match_method w c s)"
  using wrapped_recording_result [of "heap w" "self w" "call_pattern c" "call_fallback c" seen s]
  by (auto simp: call_match_pattern_def lru_cache_call_def split: option.splits prod.splits sum.splits)

lemma call_state:
  "call_match_pattern is_pattern_match_method w c s = (res, w', s') \<Longrightarrow>
     heap w' = heap w \<and> self w' = self w \<and>
     set (cache w') \<subseteq> insert ((Self, c),
        (case fst (match_pattern_wrapped is_pattern_match_method (heap w) (self w)
                     (call_pattern c) (call_fallback c) s) of
           Inr v \<Rightarrow> v | Inl _ \<Rightarrow> None))
        (set (cache w))"
  by (auto simp: call_match_pattern_def lru_cache_call_def
        dest: map_of_SomeD in_set_takeD
        split: option.splits sum.splits prod.splits if_splits)

lemma other_lookup_state:
  "lru_cache_call 128 c (Other n, k) (\<lambda>s. (res, s)) () = (out, c', u) \<Longrightarrow>
     set c' \<subseteq> insert ((Other n, k), (case res of Inr v \<Rightarrow> v | Inl _ \<Rightarrow> None)) (set c)"
  by (auto simp: lru_cache_call_def dest: map_of_SomeD in_set_takeD
        split: option.splits sum.splits prod.splits if_splits)

lemma match_pattern_call:
  "match_pattern w pattern fallback =
     (fst (call_match_pattern is_pattern_match_method w (Args2 pattern fallback) ()),
      fst (snd (call_match_pattern is_pattern_match_method w (Args2 pattern fallback) ())))"
  by (simp add: match_pattern_def split: prod.splits)

lemma match_pattern_hit:
  "map_of (cache w) (Self, Args2 pattern fallback) = Some v \<Longrightarrow>
     fst (match_pattern w pattern fallback) = Inr v"
  by (simp add: match_pattern_call call_hit)

lemma call_method_miss:
  "map_of (cache w) (Self, c) = None \<Longrightarrow>
     fst (call_match_pattern is_pattern_match_method w c s) =
       fst (match_pattern_wrapped is_pattern_match_method (heap w) (self w)
              (call_pattern c) (call_fallback c) s)"
  by (simp add: call_match_pattern_def lru_cache_call_def split: sum.splits prod.splits)

lemma call_recording_world:
  "fst (snd (call_match_pattern (recording is_pattern_match) w c seen)) =
     fst (snd (call_match_pattern is_pattern_match_method w c s))"
  using wrapped_recording_result [of "heap w" "self w" "call_pattern c" "call_fallback c" seen s]
  by (auto simp: call_match_pattern_def lru_cache_call_def split: option.splits prod.splits sum.splits)

lemma call_recording_first:
  assumes "map_of (cache w) (Self, c) = None" and "routes (self w) = xs @ r # ys"
    and "list_all (\<lambda>x. \<not> q (call_pattern c) (heap w ! x)) xs"
    and "q (call_pattern c) (heap w ! r)"
  shows "call_match_pattern (recording q) w c seen =
     (Inr (Some r), w\<lparr>cache := take 128 (((Self, c), Some r) # cache w)\<rparr>,
      seen @ map ((!) (heap w)) (xs @ [r]))"
  using assms(1) wrapped_recording_first [of "self w" xs r ys q "call_pattern c" "heap w"
      "call_fallback c" seen, OF assms(2-4)]
  by (rule call_miss)

lemma call_recording_none:
  assumes "map_of (cache w) (Self, c) = None"
    and "list_all (\<lambda>x. \<not> q (call_pattern c) (heap w ! x)) (routes (self w))"
  shows "fst (call_match_pattern (recording q) w c seen) =
           (if truthy (call_fallback c) then match_name (self w) (the (call_fallback c)) None
            else Inr None)
         \<and> snd (snd (call_match_pattern (recording q) w c seen)) =
             seen @ map ((!) (heap w)) (routes (self w))"
  using assms
  by (simp add: call_match_pattern_def lru_cache_call_def wrapped_recording_none match_name_None
        split: sum.splits)

subsection \<open>The invariants hold in every reachable state\<close>

lemma routes_ok_ref: "routes_ok w \<Longrightarrow> r \<in> set (routes (self w)) \<Longrightarrow> r < length (heap w)"
  by (auto simp: routes_ok_def routes_def)

lemma cache_okD:
  "cache_ok w \<Longrightarrow> ((Self, c), Some r) \<in> set (cache w) \<Longrightarrow>
     r \<in> set (routes (self w)) \<and>
     (is_pattern_match (call_pattern c) (heap w ! r) \<or>
      truthy (call_fallback c) \<and>
      map_of (router_routes (self w)) (the (call_fallback c)) = Some r)"
  by (auto simp: cache_ok_def)

lemma cache_okI:
  assumes "\<And>c r. ((Self, c), Some r) \<in> set (cache w) \<Longrightarrow>
     r \<in> set (routes (self w)) \<and>
     (is_pattern_match (call_pattern c) (heap w ! r) \<or>
      truthy (call_fallback c) \<and>
      map_of (router_routes (self w)) (the (call_fallback c)) = Some r)"
  shows "cache_ok w"
  using assms by (auto simp: cache_ok_def)

lemma Route_init_Inr:
  "Route_init h name pattern handler methods = Inr (r, h') \<Longrightarrow>
     \<exists>x. r = length h \<and> h' = h @ [x] \<and> route_name x = name \<and> route_pattern x = pattern"
  by (auto simp: Route_init_def split: sum.splits)

lemma invariant_heap_grows:
  assumes "invariant w"
  shows "invariant (w\<lparr>heap := heap w @ [x]\<rparr>)"
proof -
  from assms have ok: "routes_ok w" and c: "cache_ok w"
    by (simp_all add: invariant_def)
  have "routes_ok (w\<lparr>heap := heap w @ [x]\<rparr>)"
    using ok by (auto simp: routes_ok_def nth_append)
  moreover have "cache_ok (w\<lparr>heap := heap w @ [x]\<rparr>)"
  proof (rule cache_okI)
    fix k r
    assume "((Self, k), Some r) \<in> set (cache (w\<lparr>heap := heap w @ [x]\<rparr>))"
    then have "((Self, k), Some r) \<in> set (cache w)" by simp
    with c have r: "r \<in> set (routes (self w))"
      and m: "is_pattern_match (call_pattern k) (heap w ! r) \<or>
              truthy (call_fallback k) \<and>
              map_of (router_routes (self w)) (the (call_fallback k)) = Some r"
      by (auto dest: cache_okD)
    from ok r have "r < length (heap w)" by (rule routes_ok_ref)
    with r m show "r \<in> set (routes (self (w\<lparr>heap := heap w @ [x]\<rparr>))) \<and>
       (is_pattern_match (call_pattern k) (heap (w\<lparr>heap := heap w @ [x]\<rparr>) ! r) \<or>
        truthy (call_fallback k) \<and>
        map_of (router_routes (self (w\<lparr>heap := heap w @ [x]\<rparr>))) (the (call_fallback k))
          = Some r)"
      by (simp add: nth_append)
  qed
  ultimately show ?thesis
    using assms by (simp add: invariant_def prefix_ok_def)
qed

lemma invariant_register:
  assumes "invariant w" and "map_of (router_routes (self w)) k = None"
    and "r < length (heap w)" and "route_name (heap w ! r) = k"
  shows "invariant (w\<lparr>self := (self w)\<lparr>router_routes := router_routes (self w) @ [(k, r)]\<rparr>\<rparr>)"
proof -
  let ?w = "w\<lparr>self := (self w)\<lparr>router_routes := router_routes (self w) @ [(k, r)]\<rparr>\<rparr>"
  from assms(1) have d: "distinct (map fst (router_routes (self w)))"
    and ok: "routes_ok w" and c: "cache_ok w" and p: "prefix_ok w"
    by (simp_all add: invariant_def)
  from assms(2) have "k \<notin> fst ` set (router_routes (self w))"
    by (simp add: map_of_eq_None_iff)
  with d have "distinct (map fst (router_routes (self ?w)))" by simp
  moreover have "routes_ok ?w"
    using ok assms(3,4) by (auto simp: routes_ok_def)
  moreover have "cache_ok ?w"
  proof (rule cache_okI)
    fix c a
    assume "((Self, c), Some a) \<in> set (cache ?w)"
    then have "((Self, c), Some a) \<in> set (cache w)" by simp
    with \<open>cache_ok w\<close> have "a \<in> set (routes (self w))"
      and "is_pattern_match (call_pattern c) (heap w ! a) \<or>
           truthy (call_fallback c) \<and>
           map_of (router_routes (self w)) (the (call_fallback c)) = Some a"
      by (auto dest: cache_okD)
    then show "a \<in> set (routes (self ?w)) \<and>
       (is_pattern_match (call_pattern c) (heap ?w ! a) \<or>
        truthy (call_fallback c) \<and>
        map_of (router_routes (self ?w)) (the (call_fallback c)) = Some a)"
      by (auto simp: routes_def map_add_def)
  qed
  moreover have "prefix_ok ?w" using p by (simp add: prefix_ok_def)
  ultimately show ?thesis by (simp add: invariant_def)
qed

lemma invariant_add_route:
  assumes "invariant w" and "add_route w name pattern handler methods = (res, w')"
  shows "invariant w'"
proof (cases res)
  case (Inl e)
  with assms show ?thesis by (auto dest: add_route_Inl)
next
  case (Inr r)
  with assms(2) have "add_route w name pattern handler methods = (Inr r, w')" by simp
  from add_route_Inr [OF this] obtain n p us where r: "r = length (heap w)"
    and free: "map_of (router_routes (self w)) (prepare_route_name (self w) n) = None"
    and w0: "w' = w\<lparr>heap := heap w @ [\<lparr>route_name = prepare_route_name (self w) n,
                                        route_pattern = prepare_route_pattern (self w) p,
                                        route_handler = handler, route_methods = set us\<rparr>],
                    self := (self w)\<lparr>router_routes :=
                       router_routes (self w) @ [(prepare_route_name (self w) n, r)]\<rparr>\<rparr>"
    by blast
  define x where "x = \<lparr>route_name = prepare_route_name (self w) n,
                        route_pattern = prepare_route_pattern (self w) p,
                        route_handler = handler, route_methods = set us\<rparr>"
  have x: "route_name x = prepare_route_name (self w) n" by (simp add: x_def)
  have w': "w' = w\<lparr>heap := heap w @ [x],
                self := (self w)\<lparr>router_routes :=
                   router_routes (self w) @ [(prepare_route_name (self w) n, r)]\<rparr>\<rparr>"
    using w0 by (simp add: x_def)
  let ?v = "w\<lparr>heap := heap w @ [x]\<rparr>"
  have "invariant ?v" using assms(1) by (rule invariant_heap_grows)
  moreover have "map_of (router_routes (self ?v)) (prepare_route_name (self w) n) = None"
    using free by simp
  moreover have "r < length (heap ?v)" using r by simp
  moreover have "route_name (heap ?v ! r) = prepare_route_name (self w) n"
    using r x by simp
  ultimately have "invariant (?v\<lparr>self := (self ?v)\<lparr>router_routes :=
      router_routes (self ?v) @ [(prepare_route_name (self w) n, r)]\<rparr>\<rparr>)"
    by (rule invariant_register)
  then show ?thesis by (simp add: w')
qed

lemma invariant_call:
  assumes "invariant w" and "call_match_pattern is_pattern_match_method w c s = (res, w', s')"
  shows "invariant w'"
proof -
  from assms(2) have h: "heap w' = heap w" and rt: "self w' = self w"
    and sub: "set (cache w') \<subseteq> insert ((Self, c),
        (case fst (match_pattern_wrapped is_pattern_match_method (heap w) (self w)
                     (call_pattern c) (call_fallback c) s) of
           Inr v \<Rightarrow> v | Inl _ \<Rightarrow> None)) (set (cache w))"
    by (auto dest: call_state)
  from assms(1) have old: "cache_ok w" by (simp add: invariant_def)
  have "cache_ok w'"
  proof (rule cache_okI)
    fix k r
    assume "((Self, k), Some r) \<in> set (cache w')"
    with sub consider
        "k = c"
        "fst (match_pattern_wrapped is_pattern_match_method (heap w) (self w)
                (call_pattern c) (call_fallback c) s) = Inr (Some r)"
      | "((Self, k), Some r) \<in> set (cache w)"
      by (auto split: sum.splits)
    then show "r \<in> set (routes (self w')) \<and>
       (is_pattern_match (call_pattern k) (heap w' ! r) \<or>
        truthy (call_fallback k) \<and>
        map_of (router_routes (self w')) (the (call_fallback k)) = Some r)"
    proof cases
      case 1
      then show ?thesis by (auto simp: h rt dest: wrapped_method_Some)
    next
      case 2
      with old show ?thesis by (auto simp: h rt dest: cache_okD)
    qed
  qed
  with assms(1) show ?thesis
    by (simp add: invariant_def routes_ok_def prefix_ok_def h rt)
qed

lemma invariant_other_lookup:
  assumes "invariant w"
    and "lru_cache_call 128 (cache w) (Other n, c) (\<lambda>s. (res, s)) () = (out, c', u)"
  shows "invariant (w\<lparr>cache := c'\<rparr>)"
proof -
  from assms(2) have sub: "set c' \<subseteq> insert ((Other n, c),
      (case res of Inr v \<Rightarrow> v | Inl _ \<Rightarrow> None)) (set (cache w))"
    by (rule other_lookup_state)
  from assms(1) have old: "cache_ok w" by (simp add: invariant_def)
  have "cache_ok (w\<lparr>cache := c'\<rparr>)"
  proof (rule cache_okI)
    fix k r
    assume "((Self, k), Some r) \<in> set (cache (w\<lparr>cache := c'\<rparr>))"
    with sub have "((Self, k), Some r) \<in> set (cache w)" by auto
    with old show "r \<in> set (routes (self (w\<lparr>cache := c'\<rparr>))) \<and>
       (is_pattern_match (call_pattern k) (heap (w\<lparr>cache := c'\<rparr>) ! r) \<or>
        truthy (call_fallback k) \<and>
        map_of (router_routes (self (w\<lparr>cache := c'\<rparr>))) (the (call_fallback k)) = Some r)"
      by (auto dest: cache_okD)
  qed
  with assms(1) show ?thesis
    by (simp add: invariant_def routes_ok_def prefix_ok_def)
qed

lemma invariant_construct:
  assumes "Router_init name prefix = Inr rt"
  shows "invariant \<lparr>heap = [], self = rt, cache = []\<rparr>"
  using assms
  by (auto simp: Router_init_def invariant_def routes_ok_def cache_ok_def prefix_ok_def
        split: if_splits)

lemma reachable_invariant: "reachable w \<Longrightarrow> invariant w"
proof (induction rule: reachable.induct)
  case (construct name prefix rt)
  then show ?case by (rule invariant_construct)
next
  case (register w name pattern handler methods res w')
  then show ?case by (blast intro: invariant_add_route)
next
  case (lookup w c res w' u)
  then show ?case by (blast intro: invariant_call)
next
  case (other_lookup w n c res out c' u)
  then show ?case by (blast intro: invariant_other_lookup)
next
  case (new_route w name pattern handler methods r h)
  then show ?case by (auto dest!: Route_init_Inr intro: invariant_heap_grows)
qed

subsection \<open>Running the code on concrete inputs\<close>

lemmas run_defs =
  new_world_def add_route_def Let_def dict_contains_def check_route_name_def
  check_route_pattern_def prepare_route_handler_def prepare_route_name_def
  prepare_route_pattern_def Route_init_def truthy_def startswith_def Router_init_def
  quoted_def upper_def upper_char_def match_name_eq routes_def Router_len_def
  Router_contains_def is_pattern_match_def match_pattern_def lru_cache_call_def
  match_pattern_wrapped_def items_def call_match_pattern_def is_pattern_match_method_def
  recording_def

lemma upper_all_strs: "list_all (\<lambda>i. as_str i \<noteq> None) xs \<Longrightarrow> \<exists>us. upper_all xs = Inr us"
proof (induction xs)
  case Nil
  then show ?case by simp
next
  case (Cons i xs)
  then obtain s us where "i = PyStr s" "upper_all xs = Inr us"
    by (cases i) auto
  then show ?case by simp
qed


subsection \<open>Reaching states, and what they guarantee\<close>

lemma reachable_new_world:
  "\<not> (truthy prefix \<and> \<not> startswith (the prefix) ''/'') \<Longrightarrow> reachable (new_world name prefix)"
  unfolding new_world_def
  by (rule reachable.construct [of name prefix]) (simp add: Router_init_def)

lemma reachable_add_route: "reachable w \<Longrightarrow> reachable (snd (add_route w name pattern handler methods))"
  by (rule reachable.register [of w name pattern handler methods
        "fst (add_route w name pattern handler methods)"]) simp_all

lemma reachable_call:
  "reachable w \<Longrightarrow> reachable (fst (snd (call_match_pattern is_pattern_match_method w c ())))"
proof -
  assume r: "reachable w"
  obtain res w' u where "call_match_pattern is_pattern_match_method w c () = (res, w', u)"
    by (cases "call_match_pattern is_pattern_match_method w c ()") auto
  with r show ?thesis by (auto dest: reachable.lookup)
qed

lemma reachable_match_pattern: "reachable w \<Longrightarrow> reachable (snd (match_pattern w pattern fallback))"
  by (simp add: match_pattern_call reachable_call)

lemma reachable_lookup:
  "reachable w \<Longrightarrow> match_pattern w pattern fallback = (res, w') \<Longrightarrow> reachable w'"
  using reachable_match_pattern [of w pattern fallback] by simp

lemma names_are_keys:
  "routes_ok w \<Longrightarrow>
     map (\<lambda>r. route_name (heap w ! r)) (routes (self w)) = map fst (router_routes (self w))"
  by (auto simp: routes_ok_def routes_def)

lemma reachable_distinct_names:
  "reachable w \<Longrightarrow> distinct (map (\<lambda>r. route_name (heap w ! r)) (routes (self w)))"
  by (drule reachable_invariant) (simp add: invariant_def names_are_keys)

lemma add_route_duplicate:
  assumes "dict_contains (router_routes (self w)) (prepare_route_name (self w) n)"
  shows "\<exists>msg. add_route w (PyStr n) pattern handler methods = (Inl (RouterError msg), w)"
  using assms by (simp add: add_route_def Let_def split: option.splits)


lemma Router_contains_iff:
  "Router_contains rt item \<longleftrightarrow> (\<exists>r. item = PyRoute r \<and> r \<in> set (routes rt))"
  by (cases item) (auto simp: Router_contains_def list_ex_iff)

lemma startswith_append: "startswith s ''/'' \<Longrightarrow> startswith (s @ p) ''/''"
  by (cases s) (simp_all add: startswith_def)

lemma reachable_prefix:
  "reachable w \<Longrightarrow> truthy (router_prefix (self w)) \<Longrightarrow>
     startswith (the (router_prefix (self w)) @ p) ''/''"
  by (drule reachable_invariant) (simp add: invariant_def prefix_ok_def startswith_append)


section \<open>The claims\<close>

text \<open>
  C1. For every valid registration input (a string name, a string pattern, a callable
  handler and methods that iterate over strings, the qualified pattern starting with a
  slash) on a router where the qualified name is not yet registered, \<open>add_route\<close>
  returns a route, and \<open>match_name\<close> with that route's qualified name returns the same
  route object, whatever the fallback.
\<close>

theorem add_route_then_match_name:
  assumes "callable handler"
    and "py_iter methods = Inr xs" and "list_all (\<lambda>i. as_str i \<noteq> None) xs"
    and "startswith (prepare_route_pattern (self w) p) ''/''"
    and "\<not> dict_contains (router_routes (self w)) (prepare_route_name (self w) n)"
  shows "\<exists>r w'. add_route w (PyStr n) (PyStr p) handler methods = (Inr r, w')
           \<and> route_name (heap w' ! r) = prepare_route_name (self w) n
           \<and> match_name (self w') (route_name (heap w' ! r)) fallback = Inr (Some r)"
proof -
  from upper_all_strs [OF assms(3)] obtain us where us: "upper_all xs = Inr us"
    by blast
  from assms(5) have free: "map_of (router_routes (self w)) (prepare_route_name (self w) n) = None"
    by (simp add: dict_contains_def)
  note ok = add_route_ok [OF assms(1) free assms(4) assms(2) us]
  show ?thesis
    by (rule exI, rule exI, rule conjI, rule ok) (simp add: match_name_eq map_add_def free)
qed

theorem add_route_then_match_name_witness:
  "callable (PyFunction 0)
   \<and> py_iter (PyList [PyStr ''GET'']) = Inr [PyStr ''GET'']
   \<and> list_all (\<lambda>i. as_str i \<noteq> None) [PyStr ''GET'']
   \<and> startswith (prepare_route_pattern (self (new_world (Some ''test'') (Some ''/api''))) ''/hello-world'') ''/''
   \<and> \<not> dict_contains (router_routes (self (new_world (Some ''test'') (Some ''/api''))))
         (prepare_route_name (self (new_world (Some ''test'') (Some ''/api''))) ''hello_world'')
   \<and> fst (add_route (new_world (Some ''test'') (Some ''/api'')) (PyStr ''hello_world'')
            (PyStr ''/hello-world'') (PyFunction 0) (PyList [PyStr ''GET''])) = Inr 0
   \<and> match_name (self (snd (add_route (new_world (Some ''test'') (Some ''/api''))
            (PyStr ''hello_world'') (PyStr ''/hello-world'') (PyFunction 0)
            (PyList [PyStr ''GET''])))) ''test.hello_world'' None = Inr (Some 0)"
proof -
  have h1: "callable (PyFunction 0)" by simp
  have h2: "py_iter (PyList [PyStr ''GET'']) = Inr [PyStr ''GET'']" by simp
  have h3: "list_all (\<lambda>i. as_str i \<noteq> None) [PyStr ''GET'']" by simp
  have h4: "startswith (prepare_route_pattern (self (new_world (Some ''test'') (Some ''/api'')))
              ''/hello-world'') ''/''"
    by (simp add: run_defs)
  have h5: "\<not> dict_contains (router_routes (self (new_world (Some ''test'') (Some ''/api''))))
         (prepare_route_name (self (new_world (Some ''test'') (Some ''/api''))) ''hello_world'')"
    by (simp add: run_defs)
  from add_route_then_match_name [OF h1 h2 h3 h4 h5, of None]
  show ?thesis using h1 h2 h3 h4 h5
    by (auto simp: run_defs)
qed

text \<open>
  C2 does not hold as it is written: a router constructed with the empty string as its
  name has a name, yet \<open>prepare_route_name\<close> tests \<open>if self.name\<close>, which the empty
  string fails, so the given name is stored verbatim and not behind a dot.
\<close>

theorem empty_router_name_counterexample:
  "Router_init (Some '''') None = Inr (self (new_world (Some '''') None))
   \<and> fst (add_route (new_world (Some '''') None) (PyStr ''home'') (PyStr ''/'') (PyFunction 0)
            (PyList [PyStr ''GET''])) = Inr 0
   \<and> router_name (self (new_world (Some '''') None)) = Some ''''
   \<and> route_name (heap (snd (add_route (new_world (Some '''') None) (PyStr ''home'') (PyStr ''/'')
                               (PyFunction 0) (PyList [PyStr ''GET'']))) ! 0) = ''home''
   \<and> route_name (heap (snd (add_route (new_world (Some '''') None) (PyStr ''home'') (PyStr ''/'')
                               (PyFunction 0) (PyList [PyStr ''GET'']))) ! 0)
       \<noteq> '''' @ ''.'' @ ''home''"
  by (simp add: run_defs)

text \<open>
  C2, amended. For every successful \<open>add_route\<close> call the route is stored under its
  name; its name is the router's name, a dot and the given name when the router's name
  is a non-empty string, and the given name verbatim when the router has no name or the
  empty name; its pattern is the router's prefix followed by the given pattern when a
  prefix is present, and the given pattern otherwise.
\<close>

theorem stored_name_and_pattern:
  assumes "add_route w name pattern handler methods = (Inr r, w')"
  shows "\<exists>n p. name = PyStr n \<and> pattern = PyStr p
           \<and> map_of (router_routes (self w')) (route_name (heap w' ! r)) = Some r
           \<and> route_name (heap w' ! r) =
               (case router_name (self w) of
                  None \<Rightarrow> n
                | Some rn \<Rightarrow> if rn = [] then n else rn @ ''.'' @ n)
           \<and> route_pattern (heap w' ! r) =
               (case router_prefix (self w) of None \<Rightarrow> p | Some pre \<Rightarrow> pre @ p)"
proof -
  from add_route_Inr [OF assms] obtain n p us where
    "name = PyStr n" "pattern = PyStr p"
    "map_of (router_routes (self w)) (prepare_route_name (self w) n) = None"
    "r = length (heap w)"
    "w' = w\<lparr>heap := heap w @ [\<lparr>route_name = prepare_route_name (self w) n,
                                  route_pattern = prepare_route_pattern (self w) p,
                                  route_handler = handler, route_methods = set us\<rparr>],
              self := (self w)\<lparr>router_routes :=
                 router_routes (self w) @ [(prepare_route_name (self w) n, r)]\<rparr>\<rparr>"
    by blast
  then show ?thesis
    by (simp add: prepare_route_name_def prepare_route_pattern_def truthy_def map_add_def
          split: option.splits)
qed

theorem stored_name_and_pattern_witness:
  "add_route (new_world (Some ''rest_api'') (Some ''/v1'')) (PyStr ''users'') (PyStr ''/users'')
     (PyFunction 0) (PyList [PyStr ''GET''])
   = (Inr 0,
      \<lparr>heap = [\<lparr>route_name = ''rest_api.users'', route_pattern = ''/v1/users'',
                 route_handler = PyFunction 0, route_methods = {''GET''}\<rparr>],
       self = \<lparr>router_name = Some ''rest_api'', router_prefix = Some ''/v1'',
                router_routes = [(''rest_api.users'', 0)]\<rparr>,
       cache = []\<rparr>)"
proof -
  have h: "add_route (new_world (Some ''rest_api'') (Some ''/v1'')) (PyStr ''users'')
     (PyStr ''/users'') (PyFunction 0) (PyList [PyStr ''GET''])
   = (Inr 0,
      \<lparr>heap = [\<lparr>route_name = ''rest_api.users'', route_pattern = ''/v1/users'',
                 route_handler = PyFunction 0, route_methods = {''GET''}\<rparr>],
       self = \<lparr>router_name = Some ''rest_api'', router_prefix = Some ''/v1'',
                router_routes = [(''rest_api.users'', 0)]\<rparr>,
       cache = []\<rparr>)"
    by (simp add: run_defs)
  from stored_name_and_pattern [OF h] h show ?thesis by simp
qed

text \<open>
  C3 does not hold as it is written, for two reasons. \<open>match_pattern\<close> is wrapped in
  \<open>lru_cache\<close>: a lookup that found nothing is remembered, and the same call after the
  pattern has been registered still returns \<open>None\<close>, although the first route matches.
  And \<open>if fallback\<close> is false for the empty string: with a route registered under the
  empty name, a fallback \<open>""\<close> is supplied, yet the lookup by name is not consulted.
\<close>

theorem stale_or_empty_fallback_counterexample:
  "reachable (snd (add_route (snd (match_pattern (new_world None None) ''/a'' None))
                     (PyStr ''a'') (PyStr ''/a'') (PyFunction 0) (PyList [PyStr ''GET''])))
   \<and> routes (self (snd (add_route (snd (match_pattern (new_world None None) ''/a'' None))
                         (PyStr ''a'') (PyStr ''/a'') (PyFunction 0) (PyList [PyStr ''GET'']))))
       = [0]
   \<and> is_pattern_match ''/a''
        (heap (snd (add_route (snd (match_pattern (new_world None None) ''/a'' None))
                      (PyStr ''a'') (PyStr ''/a'') (PyFunction 0) (PyList [PyStr ''GET'']))) ! 0)
   \<and> fst (match_pattern
            (snd (add_route (snd (match_pattern (new_world None None) ''/a'' None))
                    (PyStr ''a'') (PyStr ''/a'') (PyFunction 0) (PyList [PyStr ''GET''])))
            ''/a'' None)
       = Inr None
   \<and> match_name (self (snd (add_route (new_world None None) (PyStr '''') (PyStr ''/x'')
                               (PyFunction 0) (PyList [])))) '''' None = Inr (Some 0)
   \<and> fst (match_pattern (snd (add_route (new_world None None) (PyStr '''') (PyStr ''/x'')
                                 (PyFunction 0) (PyList []))) ''/missing'' (Some ''''))
       = Inr None"
proof -
  have "reachable (snd (add_route (snd (match_pattern (new_world None None) ''/a'' None))
                     (PyStr ''a'') (PyStr ''/a'') (PyFunction 0) (PyList [PyStr ''GET''])))"
    by (rule reachable_add_route, rule reachable_match_pattern, rule reachable_new_world)
       (simp add: truthy_def)
  then show ?thesis by (simp add: run_defs)
qed

text \<open>
  The key is made of the arguments as passed: after the stale lookup of the
  counterexample, the call \<open>match_pattern("/a")\<close>, which passes no fallback, is not in
  the cache and finds the route.
\<close>

lemma other_call_form_is_a_miss:
  "fst (call_match_pattern is_pattern_match_method
          (snd (add_route (snd (match_pattern (new_world None None) ''/a'' None))
                  (PyStr ''a'') (PyStr ''/a'') (PyFunction 0) (PyList [PyStr ''GET''])))
          (Args1 ''/a'') ())
     = Inr (Some 0)"
  by (simp add: run_defs)

text \<open>
  C3, amended. When the cache holds no result for the same arguments as passed, lookup
  by pattern goes through the owned routes in registration order, applying the
  pattern-match predicate (by default equality of the pattern with the route's pattern),
  and returns the first route for which it is true, short-circuiting: the predicate is
  consulted for the routes up to and including that one, once each and in order, and
  not for the later routes. If no route matches, the predicate has been consulted for
  every route, and the result is that of the lookup by name of the fallback when the
  fallback is a non-empty string, and \<open>None\<close> when the fallback is \<open>None\<close> or empty.
  When the cache holds a result for the same arguments as passed, that result is
  returned and the predicate is not consulted at all; in a reachable state a cached
  route is an owned route that matches the pattern or is the route named by the
  fallback. What the predicate is consulted for is read off an override that records
  the routes it is given; the router's own predicate gives the same results and the
  same cache.
\<close>

theorem match_pattern_first_match_unless_cached:
  "(map_of (cache w) (Self, c) = Some v \<longrightarrow>
      call_match_pattern pm w c s =
        (Inr v, w\<lparr>cache := ((Self, c), v) # filter (\<lambda>e. fst e \<noteq> (Self, c)) (cache w)\<rparr>, s))
   \<and> (reachable w \<and> map_of (cache w) (Self, c) = Some (Some a) \<longrightarrow>
        a \<in> set (routes (self w)) \<and>
        (is_pattern_match (call_pattern c) (heap w ! a) \<or>
         truthy (call_fallback c) \<and>
         match_name (self w) (the (call_fallback c)) None = Inr (Some a)))
   \<and> (map_of (cache w) (Self, c) = None \<and> routes (self w) = xs @ r # ys
        \<and> list_all (\<lambda>x. \<not> q (call_pattern c) (heap w ! x)) xs
        \<and> q (call_pattern c) (heap w ! r) \<longrightarrow>
        call_match_pattern (recording q) w c [] =
          (Inr (Some r), w\<lparr>cache := take 128 (((Self, c), Some r) # cache w)\<rparr>,
           map ((!) (heap w)) (xs @ [r])))
   \<and> (map_of (cache w) (Self, c) = None
        \<and> list_all (\<lambda>x. \<not> q (call_pattern c) (heap w ! x)) (routes (self w)) \<longrightarrow>
        fst (call_match_pattern (recording q) w c []) =
          (if truthy (call_fallback c) then match_name (self w) (the (call_fallback c)) None
           else Inr None)
        \<and> snd (snd (call_match_pattern (recording q) w c [])) =
            map ((!) (heap w)) (routes (self w)))
   \<and> fst (call_match_pattern is_pattern_match_method w c u) =
       fst (call_match_pattern (recording is_pattern_match) w c [])
   \<and> fst (snd (call_match_pattern is_pattern_match_method w c u)) =
       fst (snd (call_match_pattern (recording is_pattern_match) w c []))
   \<and> (is_pattern_match pattern x \<longleftrightarrow> pattern = route_pattern x)
   \<and> match_pattern w pattern fallback =
       (fst (call_match_pattern is_pattern_match_method w (Args2 pattern fallback) ()),
        fst (snd (call_match_pattern is_pattern_match_method w (Args2 pattern fallback) ())))"
proof -
  have hit: "map_of (cache w) (Self, c) = Some v \<longrightarrow>
      call_match_pattern pm w c s =
        (Inr v, w\<lparr>cache := ((Self, c), v) # filter (\<lambda>e. fst e \<noteq> (Self, c)) (cache w)\<rparr>, s)"
    by (simp add: call_hit)
  have cached: "reachable w \<and> map_of (cache w) (Self, c) = Some (Some a) \<longrightarrow>
        a \<in> set (routes (self w)) \<and>
        (is_pattern_match (call_pattern c) (heap w ! a) \<or>
         truthy (call_fallback c) \<and>
         match_name (self w) (the (call_fallback c)) None = Inr (Some a))"
  proof
    assume "reachable w \<and> map_of (cache w) (Self, c) = Some (Some a)"
    then have "cache_ok w" "((Self, c), Some a) \<in> set (cache w)"
      by (auto dest: reachable_invariant map_of_SomeD simp: invariant_def)
    from cache_okD [OF this]
    show "a \<in> set (routes (self w)) \<and>
        (is_pattern_match (call_pattern c) (heap w ! a) \<or>
         truthy (call_fallback c) \<and>
         match_name (self w) (the (call_fallback c)) None = Inr (Some a))"
      by (simp add: match_name_None)
  qed
  have first: "map_of (cache w) (Self, c) = None \<and> routes (self w) = xs @ r # ys
        \<and> list_all (\<lambda>x. \<not> q (call_pattern c) (heap w ! x)) xs
        \<and> q (call_pattern c) (heap w ! r) \<longrightarrow>
        call_match_pattern (recording q) w c [] =
          (Inr (Some r), w\<lparr>cache := take 128 (((Self, c), Some r) # cache w)\<rparr>,
           map ((!) (heap w)) (xs @ [r]))"
    using call_recording_first [of w c xs r ys q "[]"] by simp
  have none: "map_of (cache w) (Self, c) = None
        \<and> list_all (\<lambda>x. \<not> q (call_pattern c) (heap w ! x)) (routes (self w)) \<longrightarrow>
        fst (call_match_pattern (recording q) w c []) =
          (if truthy (call_fallback c) then match_name (self w) (the (call_fallback c)) None
           else Inr None)
        \<and> snd (snd (call_match_pattern (recording q) w c [])) =
            map ((!) (heap w)) (routes (self w))"
    using call_recording_none [of w c q "[]"] by simp
  have same: "fst (call_match_pattern is_pattern_match_method w c u) =
       fst (call_match_pattern (recording is_pattern_match) w c [])"
    "fst (snd (call_match_pattern is_pattern_match_method w c u)) =
       fst (snd (call_match_pattern (recording is_pattern_match) w c []))"
    by (simp_all add: call_recording_result [of w c "[]" u] call_recording_world [of w c "[]" u])
  have eq: "is_pattern_match pattern x \<longleftrightarrow> pattern = route_pattern x"
    by (simp add: is_pattern_match_def)
  note call = match_pattern_call [of w pattern fallback]
  from hit cached first none same eq call show ?thesis by blast
qed

theorem match_pattern_first_match_unless_cached_witness:
  "call_match_pattern (recording is_pattern_match)
     (snd (add_route (snd (add_route (new_world None None) (PyStr ''hello_world'')
                             (PyStr ''/hello-world'') (PyFunction 0) (PyList [PyStr ''GET''])))
             (PyStr ''fallback'') (PyStr ''/fallback'') (PyFunction 2) (PyList [PyStr ''GET''])))
     (Args1 ''/hello-world'') []
   = (Inr (Some 0),
      (snd (add_route (snd (add_route (new_world None None) (PyStr ''hello_world'')
                             (PyStr ''/hello-world'') (PyFunction 0) (PyList [PyStr ''GET''])))
             (PyStr ''fallback'') (PyStr ''/fallback'') (PyFunction 2) (PyList [PyStr ''GET''])))
        \<lparr>cache := [((Self, Args1 ''/hello-world''), Some 0)]\<rparr>,
      [\<lparr>route_name = ''hello_world'', route_pattern = ''/hello-world'',
        route_handler = PyFunction 0, route_methods = {''GET''}\<rparr>])
   \<and> fst (call_match_pattern (recording is_pattern_match)
     (snd (add_route (snd (add_route (new_world None None) (PyStr ''hello_world'')
                             (PyStr ''/hello-world'') (PyFunction 0) (PyList [PyStr ''GET''])))
             (PyStr ''fallback'') (PyStr ''/fallback'') (PyFunction 2) (PyList [PyStr ''GET''])))
     (Args2 ''/does-not-exist'' (Some ''fallback'')) [])
     = Inr (Some 1)
   \<and> snd (snd (call_match_pattern (recording is_pattern_match)
     (snd (add_route (snd (add_route (new_world None None) (PyStr ''hello_world'')
                             (PyStr ''/hello-world'') (PyFunction 0) (PyList [PyStr ''GET''])))
             (PyStr ''fallback'') (PyStr ''/fallback'') (PyFunction 2) (PyList [PyStr ''GET''])))
     (Args2 ''/does-not-exist'' (Some ''fallback'')) []))
     = [\<lparr>route_name = ''hello_world'', route_pattern = ''/hello-world'',
         route_handler = PyFunction 0, route_methods = {''GET''}\<rparr>,
        \<lparr>route_name = ''fallback'', route_pattern = ''/fallback'',
         route_handler = PyFunction 2, route_methods = {''GET''}\<rparr>]
   \<and> fst (call_match_pattern (recording is_pattern_match)
          (snd (add_route (snd (match_pattern (new_world None None) ''/a'' None))
                  (PyStr ''a'') (PyStr ''/a'') (PyFunction 0) (PyList [PyStr ''GET''])))
          (Args2 ''/a'' None) []) = Inr None
   \<and> snd (snd (call_match_pattern (recording is_pattern_match)
          (snd (add_route (snd (match_pattern (new_world None None) ''/a'' None))
                  (PyStr ''a'') (PyStr ''/a'') (PyFunction 0) (PyList [PyStr ''GET''])))
          (Args2 ''/a'' None) [])) = []
   \<and> 0 \<in> set (routes (self (snd (match_pattern
          (snd (add_route (new_world None None) (PyStr ''a'') (PyStr ''/a'') (PyFunction 0)
                  (PyList [PyStr ''GET''])))
          ''/a'' None))))"
proof -
  let ?t = "snd (add_route (snd (add_route (new_world None None) (PyStr ''hello_world'')
                             (PyStr ''/hello-world'') (PyFunction 0) (PyList [PyStr ''GET''])))
             (PyStr ''fallback'') (PyStr ''/fallback'') (PyFunction 2) (PyList [PyStr ''GET'']))"
  let ?s = "snd (add_route (snd (match_pattern (new_world None None) ''/a'' None))
                  (PyStr ''a'') (PyStr ''/a'') (PyFunction 0) (PyList [PyStr ''GET'']))"
  let ?u = "snd (match_pattern
          (snd (add_route (new_world None None) (PyStr ''a'') (PyStr ''/a'') (PyFunction 0)
                  (PyList [PyStr ''GET''])))
          ''/a'' None)"
  have miss1: "map_of (cache ?t) (Self, Args1 ''/hello-world'') = None
      \<and> routes (self ?t) = [] @ 0 # [1]
      \<and> list_all (\<lambda>x. \<not> is_pattern_match (call_pattern (Args1 ''/hello-world'')) (heap ?t ! x)) []
      \<and> is_pattern_match (call_pattern (Args1 ''/hello-world'')) (heap ?t ! 0)"
    by (simp add: run_defs)
  have miss2: "map_of (cache ?t) (Self, Args2 ''/does-not-exist'' (Some ''fallback'')) = None
      \<and> list_all (\<lambda>x. \<not> is_pattern_match
            (call_pattern (Args2 ''/does-not-exist'' (Some ''fallback''))) (heap ?t ! x))
          (routes (self ?t))"
    by (simp add: run_defs)
  have hit: "map_of (cache ?s) (Self, Args2 ''/a'' None) = Some None"
    by (simp add: run_defs)
  have "reachable ?u"
    by (rule reachable_match_pattern, rule reachable_add_route, rule reachable_new_world)
       (simp add: truthy_def)
  moreover have "map_of (cache ?u) (Self, Args2 ''/a'' None) = Some (Some 0)"
    by (simp add: run_defs)
  ultimately have cached: "reachable ?u \<and> map_of (cache ?u) (Self, Args2 ''/a'' None) = Some (Some 0)"
    by simp
  note t1 = match_pattern_first_match_unless_cached [where w = ?t and c = "Args1 ''/hello-world''"
      and q = is_pattern_match and xs = "[]" and r = 0 and ys = "[1]"]
  note t2 = match_pattern_first_match_unless_cached [where w = ?t
      and c = "Args2 ''/does-not-exist'' (Some ''fallback'')" and q = is_pattern_match]
  note t3 = match_pattern_first_match_unless_cached [where w = ?s and c = "Args2 ''/a'' None"
      and v = None and pm = "recording is_pattern_match" and s = "[]"]
  note t4 = match_pattern_first_match_unless_cached [where w = ?u and c = "Args2 ''/a'' None"
      and a = 0]
  from t1 [THEN conjunct2, THEN conjunct2, THEN conjunct1, THEN mp, OF miss1]
  have "call_match_pattern (recording is_pattern_match) ?t (Args1 ''/hello-world'') []
      = (Inr (Some 0), ?t\<lparr>cache := take 128 (((Self, Args1 ''/hello-world''), Some 0) # cache ?t)\<rparr>,
         map ((!) (heap ?t)) ([] @ [0]))" .
  then have c1: "call_match_pattern (recording is_pattern_match) ?t (Args1 ''/hello-world'') []
      = (Inr (Some 0), ?t\<lparr>cache := [((Self, Args1 ''/hello-world''), Some 0)]\<rparr>,
         [\<lparr>route_name = ''hello_world'', route_pattern = ''/hello-world'',
           route_handler = PyFunction 0, route_methods = {''GET''}\<rparr>])"
    by (simp add: run_defs)
  from t2 [THEN conjunct2, THEN conjunct2, THEN conjunct2, THEN conjunct1, THEN mp, OF miss2]
  have "fst (call_match_pattern (recording is_pattern_match) ?t
        (Args2 ''/does-not-exist'' (Some ''fallback'')) []) =
      (if truthy (call_fallback (Args2 ''/does-not-exist'' (Some ''fallback'')))
       then match_name (self ?t) (the (call_fallback (Args2 ''/does-not-exist'' (Some ''fallback'')))) None
       else Inr None)
      \<and> snd (snd (call_match_pattern (recording is_pattern_match) ?t
           (Args2 ''/does-not-exist'' (Some ''fallback'')) [])) = map ((!) (heap ?t)) (routes (self ?t))" .
  then have c2: "fst (call_match_pattern (recording is_pattern_match) ?t
        (Args2 ''/does-not-exist'' (Some ''fallback'')) []) = Inr (Some 1)
      \<and> snd (snd (call_match_pattern (recording is_pattern_match) ?t
           (Args2 ''/does-not-exist'' (Some ''fallback'')) []))
        = [\<lparr>route_name = ''hello_world'', route_pattern = ''/hello-world'',
            route_handler = PyFunction 0, route_methods = {''GET''}\<rparr>,
           \<lparr>route_name = ''fallback'', route_pattern = ''/fallback'',
            route_handler = PyFunction 2, route_methods = {''GET''}\<rparr>]"
    by (simp add: run_defs)
  from t3 [THEN conjunct1, THEN mp, OF hit]
  have "call_match_pattern (recording is_pattern_match) ?s (Args2 ''/a'' None) []
      = (Inr None, ?s\<lparr>cache := ((Self, Args2 ''/a'' None), None)
            # filter (\<lambda>e. fst e \<noteq> (Self, Args2 ''/a'' None)) (cache ?s)\<rparr>, [])" .
  then have c3: "fst (call_match_pattern (recording is_pattern_match) ?s (Args2 ''/a'' None) [])
        = Inr None
      \<and> snd (snd (call_match_pattern (recording is_pattern_match) ?s (Args2 ''/a'' None) [])) = []"
    by simp
  from t4 [THEN conjunct2, THEN conjunct1, THEN mp, OF cached]
  have c4: "0 \<in> set (routes (self ?u))" by (rule conjunct1)
  from c1 c2 c3 c4 show ?thesis by (intro conjI) (erule conjunct1 conjunct2 | assumption)+
qed

text \<open>
  C4 does not hold as it is written: a fallback that is the empty string is supplied,
  but \<open>if fallback\<close> is false for it and the lookup is not retried, although a route
  can be registered under the empty name.
\<close>

theorem empty_fallback_not_retried_counterexample:
  "fst (add_route (new_world None None) (PyStr '''') (PyStr ''/x'') (PyFunction 0) (PyList []))
     = Inr 0
   \<and> \<not> dict_contains
        (router_routes (self (snd (add_route (new_world None None) (PyStr '''') (PyStr ''/x'')
                                     (PyFunction 0) (PyList []))))) ''missing''
   \<and> match_name (self (snd (add_route (new_world None None) (PyStr '''') (PyStr ''/x'')
                               (PyFunction 0) (PyList [])))) '''' None = Inr (Some 0)
   \<and> match_name (self (snd (add_route (new_world None None) (PyStr '''') (PyStr ''/x'')
                               (PyFunction 0) (PyList [])))) ''missing'' (Some '''') = Inr None"
  by (simp add: run_defs)

text \<open>
  C4, amended. Lookup by name never raises: it always returns a route or \<open>None\<close>. A
  name that is present gives its route. If the name is absent and a non-empty fallback
  is supplied, the result is that of the lookup of the fallback as the name, with no
  further fallback, so it is \<open>None\<close> when the fallback name is absent too. If the name
  is absent and the fallback is \<open>None\<close> or the empty string, the result is \<open>None\<close>.
\<close>

theorem match_name_never_raises:
  "(\<exists>found. match_name rt name fallback = Inr found)
   \<and> (dict_contains (router_routes rt) name \<longrightarrow>
        match_name rt name fallback = Inr (map_of (router_routes rt) name))
   \<and> (\<not> dict_contains (router_routes rt) name \<and> truthy fallback \<longrightarrow>
        match_name rt name fallback = match_name rt (the fallback) None)
   \<and> (\<not> dict_contains (router_routes rt) name \<and> truthy fallback
        \<and> \<not> dict_contains (router_routes rt) (the fallback) \<longrightarrow>
        match_name rt name fallback = Inr None)
   \<and> (\<not> dict_contains (router_routes rt) name \<and> \<not> truthy fallback \<longrightarrow>
        match_name rt name fallback = Inr None)"
  by (auto simp: match_name_eq dict_contains_def truthy_def split: option.splits)

theorem match_name_never_raises_witness:
  "match_name
     (self (snd (add_route (snd (add_route (new_world None None) (PyStr ''test'') (PyStr ''/test'')
                                   (PyFunction 0) (PyList [PyStr ''GET''])))
                   (PyStr ''not_found'') (PyStr ''/404'') (PyFunction 2) (PyList [PyStr ''GET'']))))
     ''does_not_exist'' (Some ''not_found'') = Inr (Some 1)
   \<and> match_name
     (self (snd (add_route (snd (add_route (new_world None None) (PyStr ''test'') (PyStr ''/test'')
                                   (PyFunction 0) (PyList [PyStr ''GET''])))
                   (PyStr ''not_found'') (PyStr ''/404'') (PyFunction 2) (PyList [PyStr ''GET'']))))
     ''test'' (Some ''not_found'') = Inr (Some 0)
   \<and> match_name
     (self (snd (add_route (snd (add_route (new_world None None) (PyStr ''test'') (PyStr ''/test'')
                                   (PyFunction 0) (PyList [PyStr ''GET''])))
                   (PyStr ''not_found'') (PyStr ''/404'') (PyFunction 2) (PyList [PyStr ''GET'']))))
     ''does_not_exist'' (Some ''neither'') = Inr None
   \<and> match_name
     (self (snd (add_route (snd (add_route (new_world None None) (PyStr ''test'') (PyStr ''/test'')
                                   (PyFunction 0) (PyList [PyStr ''GET''])))
                   (PyStr ''not_found'') (PyStr ''/404'') (PyFunction 2) (PyList [PyStr ''GET'']))))
     ''does_not_exist'' None = Inr None"
proof -
  let ?rt = "self (snd (add_route (snd (add_route (new_world None None) (PyStr ''test'')
                 (PyStr ''/test'') (PyFunction 0) (PyList [PyStr ''GET''])))
               (PyStr ''not_found'') (PyStr ''/404'') (PyFunction 2) (PyList [PyStr ''GET''])))"
  have rt: "router_routes ?rt = [(''test'', 0), (''not_found'', 1)]"
    by (simp add: run_defs)
  have absent: "\<not> dict_contains (router_routes ?rt) ''does_not_exist''"
    and absent2: "\<not> dict_contains (router_routes ?rt) ''neither''"
    and present: "dict_contains (router_routes ?rt) ''test''"
    by (simp_all add: rt dict_contains_def)
  have t: "truthy (Some ''not_found'')" "truthy (Some ''neither'')" "\<not> truthy None"
    by (simp_all add: truthy_def)
  from match_name_never_raises [of ?rt "''does_not_exist''" "Some ''not_found''"]
    match_name_never_raises [of ?rt "''test''" "Some ''not_found''"]
    match_name_never_raises [of ?rt "''does_not_exist''" "Some ''neither''"]
    match_name_never_raises [of ?rt "''does_not_exist''" None]
    absent absent2 present t
  show ?thesis by (simp add: rt match_name_None)
qed

text \<open>
  C5. Whenever \<open>add_route\<close> fails with a \<open>RouterError\<close> (a parameter of the wrong
  type, a qualified name already registered, a pattern of the wrong shape), the state
  after the call is the state before it: the registry has the same size, the same
  entries in the same order, and the same mapping from names to routes.
\<close>

theorem failed_add_route_changes_nothing:
  assumes "add_route w name pattern handler methods = (Inl (RouterError msg), w')"
  shows "w' = w \<and> Router_len (self w') = Router_len (self w)
         \<and> items (self w') = items (self w)
         \<and> map_of (router_routes (self w')) = map_of (router_routes (self w))"
  using add_route_Inl [OF assms] by simp

theorem failed_add_route_changes_nothing_witness:
  "add_route (snd (add_route (new_world None None) (PyStr ''ok'') (PyStr ''/ok'') (PyFunction 0)
                     (PyList [PyStr ''get''])))
     (PyStr ''ok'') (PyStr ''/ok'') (PyFunction 0) (PyList [PyStr ''get''])
   = (Inl (RouterError (''Route with name '' @ quoted ''ok'' @ '' already exists'')),
      snd (add_route (new_world None None) (PyStr ''ok'') (PyStr ''/ok'') (PyFunction 0)
             (PyList [PyStr ''get''])))
   \<and> Router_len (self (snd (add_route (new_world None None) (PyStr ''ok'') (PyStr ''/ok'')
                                (PyFunction 0) (PyList [PyStr ''get''])))) = 1"
proof -
  have h: "add_route (snd (add_route (new_world None None) (PyStr ''ok'') (PyStr ''/ok'')
                       (PyFunction 0) (PyList [PyStr ''get''])))
     (PyStr ''ok'') (PyStr ''/ok'') (PyFunction 0) (PyList [PyStr ''get''])
   = (Inl (RouterError (''Route with name '' @ quoted ''ok'' @ '' already exists'')),
      snd (add_route (new_world None None) (PyStr ''ok'') (PyStr ''/ok'') (PyFunction 0)
             (PyList [PyStr ''get''])))"
    by (simp add: run_defs)
  from failed_add_route_changes_nothing [OF h] h show ?thesis
    by (simp add: run_defs)
qed

text \<open>
  C6. In every state a program can reach, no two routes the router owns have the same
  qualified name; registering and looking up lead to states where this holds again; and
  registering a name whose qualified form is already in the registry fails with a
  \<open>RouterError\<close> and changes nothing.
\<close>

theorem qualified_names_stay_unique:
  assumes "reachable w"
  shows "distinct (map (\<lambda>r. route_name (heap w ! r)) (routes (self w)))
     \<and> (add_route w name pattern handler methods = (res, w') \<longrightarrow>
          distinct (map (\<lambda>r. route_name (heap w' ! r)) (routes (self w'))))
     \<and> (match_pattern w p fallback = (found, w'') \<longrightarrow>
          distinct (map (\<lambda>r. route_name (heap w'' ! r)) (routes (self w''))))
     \<and> (dict_contains (router_routes (self w)) (prepare_route_name (self w) n) \<longrightarrow>
          (\<exists>msg. add_route w (PyStr n) pattern handler methods = (Inl (RouterError msg), w)))"
  using assms
  by (blast intro: reachable_distinct_names reachable.register reachable_lookup
        add_route_duplicate)

theorem qualified_names_stay_unique_witness:
  "reachable (snd (add_route (new_world None None) (PyStr ''ok'') (PyStr ''/ok'') (PyFunction 0)
                     (PyList [PyStr ''get''])))
   \<and> dict_contains
        (router_routes (self (snd (add_route (new_world None None) (PyStr ''ok'') (PyStr ''/ok'')
                                     (PyFunction 0) (PyList [PyStr ''get'']))))) ''ok''
   \<and> distinct (map (\<lambda>r. route_name
                  (heap (snd (add_route (new_world None None) (PyStr ''ok'') (PyStr ''/ok'')
                                (PyFunction 0) (PyList [PyStr ''get'']))) ! r))
          (routes (self (snd (add_route (new_world None None) (PyStr ''ok'') (PyStr ''/ok'')
                                (PyFunction 0) (PyList [PyStr ''get'']))))))
   \<and> fst (add_route (snd (add_route (new_world None None) (PyStr ''ok'') (PyStr ''/ok'')
                            (PyFunction 0) (PyList [PyStr ''get''])))
            (PyStr ''ok'') (PyStr ''/other'') (PyFunction 1) (PyList [PyStr ''post'']))
       = Inl (RouterError (''Route with name '' @ quoted ''ok'' @ '' already exists''))"
proof -
  let ?w = "snd (add_route (new_world None None) (PyStr ''ok'') (PyStr ''/ok'') (PyFunction 0)
                   (PyList [PyStr ''get'']))"
  have r: "reachable ?w"
    by (rule reachable_add_route, rule reachable_new_world) (simp add: truthy_def)
  have d: "dict_contains (router_routes (self ?w)) ''ok''"
    by (simp add: run_defs)
  from qualified_names_stay_unique [OF r, of "PyStr ''ok''" "PyStr ''/other''" "PyFunction 1"
      "PyList [PyStr ''post'']" _ _ "''/ok''" None _ _ "''ok''"] r d
  show ?thesis by (simp add: run_defs)
qed

text \<open>
  C7 does not hold as it is written: \<open>add_route\<close> has three type checks, not four. It
  never looks at \<open>methods\<close>; a value that cannot be iterated reaches \<open>Route.__init__\<close>,
  which raises a \<open>TypeError\<close>, not a \<open>RouterError\<close>.
\<close>

theorem methods_unchecked_counterexample:
  "add_route (new_world None None) (PyStr ''ok'') (PyStr ''/ok'') (PyFunction 0) (PyInt 1)
     = (Inl (TypeError (quoted ''int'' @ '' object is not iterable'')), new_world None None)"
  by (simp add: run_defs)

text \<open>
  The message for a bad \<open>name\<close> is formatted with \<open>type(pattern)\<close>: with the arguments
  of the repository's own test, a name that is an integer is reported as a \<open>str\<close>.
\<close>

lemma add_route_name_message:
  "add_route w (PyInt 1) (PyStr ''/one'') handler methods =
     (Inl (RouterError (''parameter '' @ quoted ''name'' @ '' must be a string, not ''
             @ quoted (''<class '' @ quoted ''str'' @ ''>''))), w)"
  by (simp add: add_route_def)

text \<open>
  C7, amended. \<open>add_route\<close> checks three parameter types, in this order: the name must
  be a string, the pattern must be a string, the handler must be callable. Each violation
  fails with a \<open>RouterError\<close> whose message names the offending parameter, and for the
  pattern and the handler the message carries that parameter's actual type. \<open>methods\<close>
  is not checked: when everything else is accepted, a value that cannot be iterated
  fails with the \<open>TypeError\<close> of \<open>Route.__init__\<close>, and an item without \<open>upper\<close>
  with its \<open>AttributeError\<close>; the registry is unchanged in both cases.
\<close>

theorem add_route_type_checks:
  "(as_str name = None \<longrightarrow>
      (\<exists>t. add_route w name pattern handler methods =
         (Inl (RouterError (''parameter '' @ quoted ''name'' @ '' must be a string, not ''
                 @ quoted t)), w)))
   \<and> (as_str name \<noteq> None \<and> as_str pattern = None \<longrightarrow>
        add_route w name pattern handler methods =
          (Inl (RouterError (''parameter '' @ quoted ''pattern'' @ '' must be a string, not ''
                  @ quoted (type_repr pattern))), w))
   \<and> (as_str name \<noteq> None \<and> as_str pattern \<noteq> None \<and> \<not> callable handler \<longrightarrow>
        add_route w name pattern handler methods =
          (Inl (RouterError (''parameter '' @ quoted ''handler'' @ '' must be callable, not ''
                  @ quoted (type_repr handler))), w))
   \<and> (callable handler
        \<and> \<not> dict_contains (router_routes (self w)) (prepare_route_name (self w) n)
        \<and> startswith (prepare_route_pattern (self w) p) ''/''
        \<and> py_iter methods = Inl e \<longrightarrow>
        add_route w (PyStr n) (PyStr p) handler methods = (Inl e, w)
        \<and> e = TypeError (quoted (type_name methods) @ '' object is not iterable''))
   \<and> (callable handler
        \<and> \<not> dict_contains (router_routes (self w)) (prepare_route_name (self w) n)
        \<and> startswith (prepare_route_pattern (self w) p) ''/''
        \<and> py_iter methods = Inr xs \<and> upper_all xs = Inl e \<longrightarrow>
        add_route w (PyStr n) (PyStr p) handler methods = (Inl e, w)
        \<and> (\<exists>m. e = AttributeError m))"
proof -
  have iter: "py_iter methods = Inl e \<Longrightarrow>
      e = TypeError (quoted (type_name methods) @ '' object is not iterable'')"
    by (cases methods) auto
  have up: "upper_all xs = Inl e \<Longrightarrow> \<exists>m. e = AttributeError m"
  proof (induction xs)
    case Nil
    then show ?case by simp
  next
    case (Cons i xs)
    then show ?case by (cases i) (auto split: sum.splits)
  qed
  show ?thesis
    using iter up
    by (auto simp: add_route_def Let_def check_route_name_def check_route_pattern_def
          Route_init_def)
qed

theorem add_route_type_checks_witness:
  "add_route (new_world None None) (PyStr ''ok'') (PyInt 1) (PyFunction 0) (PyList [PyStr ''get''])
     = (Inl (RouterError (''parameter '' @ quoted ''pattern'' @ '' must be a string, not ''
               @ quoted (''<class '' @ quoted ''int'' @ ''>''))), new_world None None)
   \<and> add_route (new_world None None) (PyStr ''ok'') (PyStr ''/ok'') (PyStr ''fail'')
       (PyList [PyStr ''get''])
     = (Inl (RouterError (''parameter '' @ quoted ''handler'' @ '' must be callable, not ''
               @ quoted (''<class '' @ quoted ''str'' @ ''>''))), new_world None None)
   \<and> (\<exists>t. add_route (new_world None None) (PyInt 1) (PyStr ''/one'') (PyFunction 0)
             (PyList [PyStr ''get''])
         = (Inl (RouterError (''parameter '' @ quoted ''name'' @ '' must be a string, not ''
                   @ quoted t)), new_world None None))
   \<and> add_route (new_world None None) (PyStr ''ok'') (PyStr ''/ok'') (PyFunction 0) PyNone
     = (Inl (TypeError (quoted ''NoneType'' @ '' object is not iterable'')), new_world None None)
   \<and> fst (add_route (new_world None None) (PyStr ''ok'') (PyStr ''/ok'') (PyFunction 0)
            (PyList [PyStr ''get'', PyInt 5]))
     = Inl (AttributeError (quoted ''int'' @ '' object has no attribute '' @ quoted ''upper''))"
proof -
  let ?w = "new_world None None"
  have free: "\<not> dict_contains (router_routes (self ?w)) (prepare_route_name (self ?w) ''ok'')"
    and slash: "startswith (prepare_route_pattern (self ?w) ''/ok'') ''/''"
    by (simp_all add: run_defs)
  have up: "upper_all [PyStr ''get'', PyInt 5] =
      Inl (AttributeError (quoted ''int'' @ '' object has no attribute '' @ quoted ''upper''))"
    by simp
  from add_route_type_checks [of "PyStr ''ok''" ?w "PyInt 1" "PyFunction 0" "PyList [PyStr ''get'']"]
    add_route_type_checks [of "PyStr ''ok''" ?w "PyStr ''/ok''" "PyStr ''fail''" "PyList [PyStr ''get'']"]
    add_route_type_checks [of "PyInt 1" ?w "PyStr ''/one''" "PyFunction 0" "PyList [PyStr ''get'']"]
    add_route_type_checks [where w = ?w and handler = "PyFunction 0" and n = "''ok''"
      and p = "''/ok''" and methods = PyNone
      and e = "TypeError (quoted ''NoneType'' @ '' object is not iterable'')"]
    add_route_type_checks [where w = ?w and handler = "PyFunction 0" and n = "''ok''"
      and p = "''/ok''" and methods = "PyList [PyStr ''get'', PyInt 5]"
      and xs = "[PyStr ''get'', PyInt 5]"
      and e = "AttributeError (quoted ''int'' @ '' object has no attribute '' @ quoted ''upper'')"]
    free slash up
  show ?thesis by simp
qed

text \<open>
  C8 does not hold as it is written: \<open>__contains__\<close> looks the item up in the list of
  route objects, so the qualified name of a registered route is not contained.
\<close>

theorem name_not_contained_counterexample:
  "fst (add_route (new_world None None) (PyStr ''test'') (PyStr ''/test'') (PyFunction 0)
          (PyList [PyStr ''GET''])) = Inr 0
   \<and> route_name (heap (snd (add_route (new_world None None) (PyStr ''test'') (PyStr ''/test'')
                               (PyFunction 0) (PyList [PyStr ''GET'']))) ! 0) = ''test''
   \<and> Router_contains (self (snd (add_route (new_world None None) (PyStr ''test'')
                                    (PyStr ''/test'') (PyFunction 0) (PyList [PyStr ''GET'']))))
        (PyRoute 0)
   \<and> \<not> Router_contains (self (snd (add_route (new_world None None) (PyStr ''test'')
                                    (PyStr ''/test'') (PyFunction 0) (PyList [PyStr ''GET'']))))
        (PyStr ''test'')"
  by (simp add: run_defs)

text \<open>
  C8, amended. The containment check returns true exactly when the given item is one of
  the route objects currently registered, by identity. The route a successful
  \<open>add_route\<close> returns is contained; a string is never contained; and another route
  object with the qualified name of a registered route is not contained.
\<close>

theorem contains_is_by_identity:
  "(Router_contains (self w) item \<longleftrightarrow> (\<exists>r. item = PyRoute r \<and> r \<in> set (routes (self w))))
   \<and> (add_route w name pattern handler methods = (Inr a, w') \<longrightarrow>
        Router_contains (self w') (PyRoute a))
   \<and> (reachable w \<and> r \<in> set (routes (self w)) \<and> b \<noteq> r
        \<and> route_name (heap w ! b) = route_name (heap w ! r) \<longrightarrow>
        \<not> Router_contains (self w) (PyRoute b))"
proof -
  have "Router_contains (self w') (PyRoute a)"
    if "add_route w name pattern handler methods = (Inr a, w')"
    using add_route_Inr [OF that] by (auto simp: Router_contains_iff routes_def)
  moreover have "\<not> Router_contains (self w) (PyRoute b)"
    if "reachable w" "r \<in> set (routes (self w))" "b \<noteq> r"
      "route_name (heap w ! b) = route_name (heap w ! r)"
  proof
    assume "Router_contains (self w) (PyRoute b)"
    then have "b \<in> set (routes (self w))" by (simp add: Router_contains_iff)
    moreover from that(1) have "inj_on (\<lambda>r. route_name (heap w ! r)) (set (routes (self w)))"
      by (auto dest!: reachable_distinct_names simp: distinct_map)
    ultimately show False using that(2-4) by (auto dest: inj_onD)
  qed
  ultimately show ?thesis by (auto simp: Router_contains_iff)
qed

theorem contains_is_by_identity_witness:
  "reachable
     ((snd (add_route (new_world None None) (PyStr ''test'') (PyStr ''/test'') (PyFunction 0)
              (PyList [PyStr ''GET''])))
      \<lparr>heap := heap (snd (add_route (new_world None None) (PyStr ''test'') (PyStr ''/test'')
                            (PyFunction 0) (PyList [PyStr ''GET''])))
                @ [\<lparr>route_name = ''test'', route_pattern = ''/test'',
                    route_handler = PyFunction 0, route_methods = {''GET''}\<rparr>]\<rparr>)
   \<and> routes (self (snd (add_route (new_world None None) (PyStr ''test'') (PyStr ''/test'')
                         (PyFunction 0) (PyList [PyStr ''GET'']))))
       = [0]
   \<and> Router_contains
        (self (snd (add_route (new_world None None) (PyStr ''test'') (PyStr ''/test'')
                      (PyFunction 0) (PyList [PyStr ''GET'']))))
        (PyRoute 0)
   \<and> \<not> Router_contains
        (self ((snd (add_route (new_world None None) (PyStr ''test'') (PyStr ''/test'')
                       (PyFunction 0) (PyList [PyStr ''GET''])))
           \<lparr>heap := heap (snd (add_route (new_world None None) (PyStr ''test'') (PyStr ''/test'')
                            (PyFunction 0) (PyList [PyStr ''GET''])))
                @ [\<lparr>route_name = ''test'', route_pattern = ''/test'',
                    route_handler = PyFunction 0, route_methods = {''GET''}\<rparr>]\<rparr>))
        (PyRoute 1)"
proof -
  let ?w1 = "snd (add_route (new_world None None) (PyStr ''test'') (PyStr ''/test'')
                    (PyFunction 0) (PyList [PyStr ''GET'']))"
  let ?x = "\<lparr>route_name = ''test'', route_pattern = ''/test'',
             route_handler = PyFunction 0, route_methods = {''GET''}\<rparr>"
  let ?w2 = "?w1\<lparr>heap := heap ?w1 @ [?x]\<rparr>"
  have r1: "reachable ?w1"
    by (rule reachable_add_route, rule reachable_new_world) (simp add: truthy_def)
  have "Route_init (heap ?w1) ''test'' ''/test'' (PyFunction 0) (PyList [PyStr ''GET''])
      = Inr (Suc 0, heap ?w1 @ [?x])"
    by (simp add: run_defs)
  with r1 have r2: "reachable ?w2" by (rule reachable.new_route)
  have added: "add_route (new_world None None) (PyStr ''test'') (PyStr ''/test'')
                    (PyFunction 0) (PyList [PyStr ''GET'']) = (Inr 0, ?w1)"
    by (simp add: run_defs)
  have own: "0 \<in> set (routes (self ?w2))" and other: "Suc 0 \<noteq> 0"
    and same: "route_name (heap ?w2 ! Suc 0) = route_name (heap ?w2 ! 0)"
    by (simp_all add: run_defs)
  from contains_is_by_identity [of "new_world None None" _ "PyStr ''test''" "PyStr ''/test''"
      "PyFunction 0" "PyList [PyStr ''GET'']" 0 ?w1]
    contains_is_by_identity [of ?w2 _ _ _ _ _ _ _ 0 "Suc 0"]
    r2 added own other same
  show ?thesis by (simp add: run_defs)
qed

text \<open>
  C9. The pattern check applies to the qualified pattern. On a router constructed with a
  non-empty prefix, which starts with a slash, \<open>add_route\<close> accepts any pattern string,
  also one without a leading slash: it returns a route whose pattern is the prefix
  followed by the pattern (prefix \<open>/v1\<close> and pattern \<open>users\<close> give \<open>/v1users\<close>), and
  that route is registered: it is the last of the router's routes, the router has one
  route more, contains it, and finds it under its qualified name. A router without a
  prefix, or with the empty prefix, rejects a pattern without a leading slash and is
  left as it was.
\<close>

theorem pattern_shape_checked_after_prefix:
  assumes "reachable w"
  shows "(truthy (router_prefix (self w)) \<and> callable handler
          \<and> py_iter methods = Inr xs \<and> list_all (\<lambda>i. as_str i \<noteq> None) xs
          \<and> \<not> dict_contains (router_routes (self w)) (prepare_route_name (self w) n) \<longrightarrow>
          (\<exists>r w'. add_route w (PyStr n) (PyStr p) handler methods = (Inr r, w')
                 \<and> route_pattern (heap w' ! r) = the (router_prefix (self w)) @ p
                 \<and> route_name (heap w' ! r) = prepare_route_name (self w) n
                 \<and> items (self w') = items (self w) @ [(prepare_route_name (self w) n, r)]
                 \<and> routes (self w') = routes (self w) @ [r]
                 \<and> Router_len (self w') = Suc (Router_len (self w))
                 \<and> Router_contains (self w') (PyRoute r)
                 \<and> match_name (self w') (prepare_route_name (self w) n) None = Inr (Some r)))
     \<and> (\<not> truthy (router_prefix (self w)) \<and> callable handler
          \<and> \<not> dict_contains (router_routes (self w)) (prepare_route_name (self w) n)
          \<and> \<not> startswith p ''/'' \<longrightarrow>
          add_route w (PyStr n) (PyStr p) handler methods =
            (Inl (RouterError (quoted ''pattern'' @ '' must start with a '' @ quoted ''/'')), w))"
proof (intro conjI impI)
  assume a: "truthy (router_prefix (self w)) \<and> callable handler
          \<and> py_iter methods = Inr xs \<and> list_all (\<lambda>i. as_str i \<noteq> None) xs
          \<and> \<not> dict_contains (router_routes (self w)) (prepare_route_name (self w) n)"
  then obtain us where us: "upper_all xs = Inr us"
    using upper_all_strs by blast
  from a have free: "map_of (router_routes (self w)) (prepare_route_name (self w) n) = None"
    by (simp add: dict_contains_def)
  from a assms have slash: "startswith (prepare_route_pattern (self w) p) ''/''"
    by (simp add: prepare_route_pattern_def reachable_prefix)
  from a have "callable handler" "py_iter methods = Inr xs" by simp_all
  note ok = add_route_ok [OF this(1) free slash this(2) us]
  from a have tp: "truthy (router_prefix (self w))" by simp
  show "\<exists>r w'. add_route w (PyStr n) (PyStr p) handler methods = (Inr r, w')
                 \<and> route_pattern (heap w' ! r) = the (router_prefix (self w)) @ p
                 \<and> route_name (heap w' ! r) = prepare_route_name (self w) n
                 \<and> items (self w') = items (self w) @ [(prepare_route_name (self w) n, r)]
                 \<and> routes (self w') = routes (self w) @ [r]
                 \<and> Router_len (self w') = Suc (Router_len (self w))
                 \<and> Router_contains (self w') (PyRoute r)
                 \<and> match_name (self w') (prepare_route_name (self w) n) None = Inr (Some r)"
    unfolding ok using free
    by (simp add: prepare_route_pattern_def tp items_def routes_def Router_len_def
          Router_contains_iff match_name_None map_add_def)
next
  assume "\<not> truthy (router_prefix (self w)) \<and> callable handler
          \<and> \<not> dict_contains (router_routes (self w)) (prepare_route_name (self w) n)
          \<and> \<not> startswith p ''/''"
  then show "add_route w (PyStr n) (PyStr p) handler methods =
            (Inl (RouterError (quoted ''pattern'' @ '' must start with a '' @ quoted ''/'')), w)"
    by (simp add: add_route_def Let_def check_route_name_def check_route_pattern_def
          prepare_route_pattern_def)
qed

theorem pattern_shape_checked_after_prefix_witness:
  "reachable (new_world None (Some ''/v1''))
   \<and> add_route (new_world None (Some ''/v1'')) (PyStr ''users'') (PyStr ''users'')
        (PyFunction 0) (PyList [PyStr ''GET''])
       = (Inr 0,
          \<lparr>heap = [\<lparr>route_name = ''users'', route_pattern = ''/v1users'',
                     route_handler = PyFunction 0, route_methods = {''GET''}\<rparr>],
           self = \<lparr>router_name = None, router_prefix = Some ''/v1'',
                    router_routes = [(''users'', 0)]\<rparr>,
           cache = []\<rparr>)
   \<and> Router_contains
        (self (snd (add_route (new_world None (Some ''/v1'')) (PyStr ''users'') (PyStr ''users'')
                      (PyFunction 0) (PyList [PyStr ''GET'']))))
        (PyRoute 0)
   \<and> match_name
        (self (snd (add_route (new_world None (Some ''/v1'')) (PyStr ''users'') (PyStr ''users'')
                      (PyFunction 0) (PyList [PyStr ''GET'']))))
        ''users'' None = Inr (Some 0)
   \<and> reachable (new_world None None)
   \<and> add_route (new_world None None) (PyStr ''fail'') (PyStr ''fail'') (PyFunction 0)
        (PyList [PyStr ''get''])
       = (Inl (RouterError (quoted ''pattern'' @ '' must start with a '' @ quoted ''/'')),
          new_world None None)"
proof -
  have r1: "reachable (new_world None (Some ''/v1''))"
    by (rule reachable_new_world) (simp add: startswith_def)
  have r2: "reachable (new_world None None)"
    by (rule reachable_new_world) (simp add: truthy_def)
  have h: "truthy (router_prefix (self (new_world None (Some ''/v1''))))"
    "callable (PyFunction 0)"
    "py_iter (PyList [PyStr ''GET'']) = Inr [PyStr ''GET'']"
    "list_all (\<lambda>i. as_str i \<noteq> None) [PyStr ''GET'']"
    "\<not> dict_contains (router_routes (self (new_world None (Some ''/v1''))))
        (prepare_route_name (self (new_world None (Some ''/v1''))) ''users'')"
    "\<not> truthy (router_prefix (self (new_world None None)))"
    "\<not> dict_contains (router_routes (self (new_world None None)))
        (prepare_route_name (self (new_world None None)) ''fail'')"
    "\<not> startswith ''fail'' ''/''"
    by (simp_all add: run_defs)
  from pattern_shape_checked_after_prefix [OF r1, of "PyFunction 0" "PyList [PyStr ''GET'']"
      "[PyStr ''GET'']" "''users''" "''users''"]
    pattern_shape_checked_after_prefix [OF r2, where handler = "PyFunction 0"
      and methods = "PyList [PyStr ''get'']" and n = "''fail''" and p = "''fail''"]
    r1 r2 h
  show ?thesis by (auto simp: run_defs)
qed

text \<open>
  C10. An empty-string fallback is no fallback, in both lookups. \<open>match_name\<close> with
  fallback \<open>""\<close> returns \<open>None\<close> when the name is absent, and in every reachable state
  \<open>match_pattern\<close> with fallback \<open>""\<close>, however it is passed, returns \<open>None\<close> when no
  owned route matches the pattern, also when a route is registered under the empty
  name: on a router without a name \<open>add_route\<close> accepts the empty name, and the lookup
  of \<open>""\<close> finds that route.
\<close>

theorem empty_fallback_is_no_fallback:
  "(\<not> dict_contains (router_routes rt) name \<longrightarrow> match_name rt name (Some '''') = Inr None)
   \<and> (reachable w \<and> list_all (\<lambda>r. \<not> is_pattern_match pattern (heap w ! r)) (routes (self w)) \<longrightarrow>
        fst (match_pattern w pattern (Some '''')) = Inr None)
   \<and> (reachable w \<and> call_fallback c = Some ''''
        \<and> list_all (\<lambda>r. \<not> is_pattern_match (call_pattern c) (heap w ! r)) (routes (self w)) \<longrightarrow>
        fst (call_match_pattern is_pattern_match_method w c ()) = Inr None)
   \<and> (\<not> truthy (router_name (self w)) \<and> callable handler
        \<and> py_iter methods = Inr xs \<and> list_all (\<lambda>i. as_str i \<noteq> None) xs
        \<and> startswith (prepare_route_pattern (self w) p) ''/''
        \<and> \<not> dict_contains (router_routes (self w)) '''' \<longrightarrow>
        (\<exists>r w'. add_route w (PyStr '''') (PyStr p) handler methods = (Inr r, w')
               \<and> route_name (heap w' ! r) = ''''
               \<and> match_name (self w') '''' None = Inr (Some r)))"
proof -
  have by_name: "\<not> dict_contains (router_routes rt) name \<longrightarrow>
      match_name rt name (Some '''') = Inr None"
    by (simp add: match_name_eq dict_contains_def truthy_def)
  have any_call: "fst (call_match_pattern is_pattern_match_method w k ()) = Inr None"
    if a: "reachable w \<and> call_fallback k = Some ''''
        \<and> list_all (\<lambda>r. \<not> is_pattern_match (call_pattern k) (heap w ! r)) (routes (self w))"
    for k
  proof -
    from a have none: "\<forall>r \<in> set (routes (self w)). \<not> is_pattern_match (call_pattern k) (heap w ! r)"
      by (simp add: list_all_iff)
    from a have ok: "cache_ok w" by (auto dest: reachable_invariant simp: invariant_def)
    show ?thesis
    proof (cases "map_of (cache w) (Self, k)")
      case None
      with a show ?thesis
        by (simp add: call_method_miss wrapped_method_none truthy_def)
    next
      case (Some v)
      have "v = None"
      proof (cases v)
        case None
        then show ?thesis .
      next
        case (Some r)
        with \<open>map_of (cache w) (Self, k) = Some v\<close>
        have "((Self, k), Some r) \<in> set (cache w)"
          by (auto dest: map_of_SomeD)
        from cache_okD [OF ok this] none a show ?thesis by (auto simp: truthy_def)
      qed
      with Some show ?thesis by (simp add: call_hit)
    qed
  qed
  have by_pattern: "reachable w
      \<and> list_all (\<lambda>r. \<not> is_pattern_match pattern (heap w ! r)) (routes (self w)) \<longrightarrow>
        fst (match_pattern w pattern (Some '''')) = Inr None"
    using any_call [of "Args2 pattern (Some '''')"] by (simp add: match_pattern_call)
  have by_call: "reachable w \<and> call_fallback c = Some ''''
        \<and> list_all (\<lambda>r. \<not> is_pattern_match (call_pattern c) (heap w ! r)) (routes (self w)) \<longrightarrow>
        fst (call_match_pattern is_pattern_match_method w c ()) = Inr None"
    using any_call [of c] by blast
  have empty_name: "\<exists>r w'. add_route w (PyStr '''') (PyStr p) handler methods = (Inr r, w')
               \<and> route_name (heap w' ! r) = ''''
               \<and> match_name (self w') '''' None = Inr (Some r)"
    if a: "\<not> truthy (router_name (self w)) \<and> callable handler
        \<and> py_iter methods = Inr xs \<and> list_all (\<lambda>i. as_str i \<noteq> None) xs
        \<and> startswith (prepare_route_pattern (self w) p) ''/''
        \<and> \<not> dict_contains (router_routes (self w)) ''''"
  proof -
    from a have q: "prepare_route_name (self w) '''' = ''''"
      by (simp add: prepare_route_name_def)
    from a obtain us where us: "upper_all xs = Inr us"
      using upper_all_strs by blast
    from a q have free: "map_of (router_routes (self w)) (prepare_route_name (self w) '''') = None"
      by (simp add: dict_contains_def)
    from a have "callable handler" "startswith (prepare_route_pattern (self w) p) ''/''"
      "py_iter methods = Inr xs"
      by simp_all
    note ok = add_route_ok [OF this(1) free this(2) this(3) us]
    show ?thesis
      unfolding ok using free by (simp add: q match_name_None map_add_def)
  qed
  from by_name by_pattern by_call empty_name show ?thesis by blast
qed

theorem empty_fallback_is_no_fallback_witness:
  "fst (add_route (new_world None None) (PyStr '''') (PyStr ''/x'') (PyFunction 0) (PyList []))
     = Inr 0
   \<and> reachable (snd (add_route (new_world None None) (PyStr '''') (PyStr ''/x'') (PyFunction 0)
                       (PyList [])))
   \<and> match_name (self (snd (add_route (new_world None None) (PyStr '''') (PyStr ''/x'')
                               (PyFunction 0) (PyList [])))) '''' None = Inr (Some 0)
   \<and> match_name (self (snd (add_route (new_world None None) (PyStr '''') (PyStr ''/x'')
                               (PyFunction 0) (PyList [])))) ''missing'' (Some '''') = Inr None
   \<and> fst (match_pattern (snd (add_route (new_world None None) (PyStr '''') (PyStr ''/x'')
                                 (PyFunction 0) (PyList []))) ''/missing'' (Some ''''))
       = Inr None
   \<and> fst (call_match_pattern is_pattern_match_method
            (snd (add_route (new_world None None) (PyStr '''') (PyStr ''/x'')
                    (PyFunction 0) (PyList [])))
            (Args1_fallback ''/missing'' (Some '''')) ())
       = Inr None"
proof -
  let ?v = "new_world None None"
  let ?w = "snd (add_route ?v (PyStr '''') (PyStr ''/x'') (PyFunction 0) (PyList []))"
  have r: "reachable ?w"
    by (rule reachable_add_route, rule reachable_new_world) (simp add: truthy_def)
  have h1: "\<not> dict_contains (router_routes (self ?w)) ''missing''"
    by (simp add: run_defs)
  have h2: "list_all (\<lambda>a. \<not> is_pattern_match ''/missing'' (heap ?w ! a)) (routes (self ?w))"
    by (simp add: run_defs)
  have h3: "\<not> truthy (router_name (self ?v))"
    by (simp add: run_defs)
  have h4: "callable (PyFunction 0)" "py_iter (PyList []) = Inr []"
    "list_all (\<lambda>i. as_str i \<noteq> None) []"
    by simp_all
  have h5: "startswith (prepare_route_pattern (self ?v) ''/x'') ''/''"
    by (simp add: run_defs)
  have h6: "\<not> dict_contains (router_routes (self ?v)) ''''"
    by (simp add: run_defs)
  note h = h1 h2 h3 h4 h5 h6
  have h7: "call_fallback (Args1_fallback ''/missing'' (Some '''')) = Some ''''"
    "list_all (\<lambda>a. \<not> is_pattern_match (call_pattern (Args1_fallback ''/missing'' (Some '''')))
                (heap ?w ! a)) (routes (self ?w))"
    by (simp_all add: run_defs)
  note t1 = empty_fallback_is_no_fallback [where rt = "self ?w" and name = "''missing''"
      and w = ?w and pattern = "''/missing''" and c = "Args1_fallback ''/missing'' (Some '''')"]
  note t2 = empty_fallback_is_no_fallback [where w = ?v and handler = "PyFunction 0"
      and methods = "PyList []" and xs = "[]" and p = "''/x''"]
  from t1 h have c1: "match_name (self ?w) ''missing'' (Some '''') = Inr None"
    by blast
  from t1 r h have c2: "fst (match_pattern ?w ''/missing'' (Some '''')) = Inr None"
    by blast
  from t1 r h7 have c4: "fst (call_match_pattern is_pattern_match_method ?w
      (Args1_fallback ''/missing'' (Some '''')) ()) = Inr None"
    by blast
  from t2 h have "\<exists>a w'. add_route ?v (PyStr '''') (PyStr ''/x'') (PyFunction 0) (PyList [])
        = (Inr a, w') \<and> route_name (heap w' ! a) = '''' \<and>
        match_name (self w') '''' None = Inr (Some a)"
    by blast
  moreover have "fst (add_route ?v (PyStr '''') (PyStr ''/x'') (PyFunction 0) (PyList []))
      = Inr 0"
    by (simp add: run_defs)
  ultimately have c3: "fst (add_route ?v (PyStr '''') (PyStr ''/x'') (PyFunction 0) (PyList []))
      = Inr 0 \<and> match_name (self ?w) '''' None = Inr (Some 0)"
    by auto
  from r c1 c2 c3 c4 show ?thesis by blast
qed

end
